theory Spec2Isabelle
  imports Main "HOL-Library.Sublist"
begin

section \<open>WordPeek: the lookup pipeline of wordpeek.py\<close>

text \<open>
  Python strings are modelled as \<^typ>\<open>string\<close>, read as the UTF-8 encoding of the text:
  concatenation, joining, the substring test against an ASCII needle and percent-encoding
  agree with Python's on code points. A str that cannot be encoded (one that holds a lone
  surrogate) is not a \<^typ>\<open>string\<close>; the lookup on such a str is modelled apart, on code points.
\<close>

subsection \<open>Text helpers\<close>

definition digit_char :: "nat \<Rightarrow> char" where
  \<comment> \<open>used below 10 only\<close>
  "digit_char d = ''0123456789'' ! d"

function str_nat :: "nat \<Rightarrow> string" where
  "str_nat n = (if n < 10 then [digit_char n]
                else str_nat (n div 10) @ [digit_char (n mod 10)])"
  by pat_completeness auto
termination
  by (relation "measure id") auto

declare str_nat.simps [simp del]

definition str_int :: "int \<Rightarrow> string" where
  \<comment> \<open>\<open>str(i)\<close> of a Python int, as an f-string renders it\<close>
  "str_int i = (if i < 0 then CHR ''-'' # str_nat (nat (- i)) else str_nat (nat i))"

fun join :: "string \<Rightarrow> string list \<Rightarrow> string" where
  \<comment> \<open>\<open>sep.join(xs)\<close> on a list of str\<close>
  "join sep [] = []"
| "join sep [x] = x"
| "join sep (x # y # ys) = x @ sep @ join sep (y # ys)"

subsection \<open>Decoded JSON values and the Python operations applied to them\<close>

typedecl py_float
  \<comment> \<open>floating-point numbers are kept abstract\<close>

datatype py_value =
    PyNone
  | PyBool bool
  | PyInt int
  | PyFloat py_float
  | PyStr string
  | PyList "py_value list"
  | PyDict "(string \<times> py_value) list"
  \<comment> \<open>the items of the dict in insertion order, keys distinct\<close>

datatype py_type = NoneType | BoolT | IntT | FloatT | StrT | ListT | DictT

fun type_of :: "py_value \<Rightarrow> py_type" where
  "type_of PyNone = NoneType"
| "type_of (PyBool _) = BoolT"
| "type_of (PyInt _) = IntT"
| "type_of (PyFloat _) = FloatT"
| "type_of (PyStr _) = StrT"
| "type_of (PyList _) = ListT"
| "type_of (PyDict _) = DictT"

datatype py_exception =
    NotIterable py_type
    \<comment> \<open>TypeError of \<open>iter(x)\<close>\<close>
  | NotContainer py_type
    \<comment> \<open>TypeError of \<open>k in x\<close>\<close>
  | BadIndex py_type
    \<comment> \<open>TypeError of \<open>x[k]\<close> with a str key on a value that is not a dict\<close>
  | KeyError string
  | ValueError
    \<comment> \<open>\<open>list.remove(x)\<close> with \<open>x\<close> absent\<close>
  | NoAttribute py_type string
    \<comment> \<open>AttributeError of \<open>x.get\<close>\<close>
  | JoinItem nat py_type
    \<comment> \<open>TypeError of \<open>str.join\<close> on an item that is not a str\<close>
  | UnicodeEncodeError
    \<comment> \<open>\<open>str.encode\<close> on a str that holds a lone surrogate\<close>
  | External string
    \<comment> \<open>an exception raised inside the requests library\<close>

text \<open>
  What the interpreter supplies and the source does not fix: the text of an exception,
  the text of a value that is not a str inside an f-string, the truth value of a float.
\<close>

record py_runtime =
  exc_str :: "py_exception \<Rightarrow> string"
  value_str :: "py_value \<Rightarrow> string"
  float_truth :: "py_float \<Rightarrow> bool"

definition bind_exc :: "'e + 'a \<Rightarrow> ('a \<Rightarrow> 'e + 'b) \<Rightarrow> 'e + 'b" where
  \<comment> \<open>sequencing: the first exception raised ends the block\<close>
  "bind_exc m f = (case m of Inl e \<Rightarrow> Inl e | Inr v \<Rightarrow> f v)"

fun py_format :: "py_runtime \<Rightarrow> py_value \<Rightarrow> string" where
  \<comment> \<open>\<open>{v}\<close> inside an f-string\<close>
  "py_format rt (PyStr s) = s"
| "py_format rt v = value_str rt v"

fun py_truthy :: "py_runtime \<Rightarrow> py_value \<Rightarrow> bool" where
  "py_truthy rt PyNone = False"
| "py_truthy rt (PyBool b) = b"
| "py_truthy rt (PyInt i) = (i \<noteq> 0)"
| "py_truthy rt (PyFloat x) = float_truth rt x"
| "py_truthy rt (PyStr s) = (s \<noteq> [])"
| "py_truthy rt (PyList xs) = (xs \<noteq> [])"
| "py_truthy rt (PyDict kvs) = (kvs \<noteq> [])"

fun is_str :: "string \<Rightarrow> py_value \<Rightarrow> bool" where
  "is_str k (PyStr s) = (s = k)"
| "is_str k _ = False"

fun py_contains :: "string \<Rightarrow> py_value \<Rightarrow> py_exception + bool" where
  \<comment> \<open>\<open>k in x\<close> for a str constant \<open>k\<close>\<close>
  "py_contains k (PyDict kvs) = Inr (map_of kvs k \<noteq> None)"
| "py_contains k (PyList xs) = Inr (list_ex (is_str k) xs)"
| "py_contains k (PyStr s) = Inr (sublist k s)"
| "py_contains k v = Inl (NotContainer (type_of v))"

fun py_get :: "py_value \<Rightarrow> string \<Rightarrow> py_value \<Rightarrow> py_exception + py_value" where
  \<comment> \<open>\<open>x.get(k, default)\<close>\<close>
  "py_get (PyDict kvs) k dflt = Inr (case map_of kvs k of None \<Rightarrow> dflt | Some v \<Rightarrow> v)"
| "py_get v k dflt = Inl (NoAttribute (type_of v) ''get'')"

fun py_getitem :: "py_value \<Rightarrow> string \<Rightarrow> py_exception + py_value" where
  \<comment> \<open>\<open>x[k]\<close> for a str \<open>k\<close>\<close>
  "py_getitem (PyDict kvs) k = (case map_of kvs k of None \<Rightarrow> Inl (KeyError k) | Some v \<Rightarrow> Inr v)"
| "py_getitem v k = Inl (BadIndex (type_of v))"

fun py_iter :: "py_value \<Rightarrow> py_exception + py_value list" where
  \<comment> \<open>the items a \<open>for\<close> loop over \<open>x\<close> visits; of a str, its pieces of length one\<close>
  "py_iter (PyList xs) = Inr xs"
| "py_iter (PyDict kvs) = Inr (map (\<lambda>kv. PyStr (fst kv)) kvs)"
| "py_iter (PyStr s) = Inr (map (\<lambda>c. PyStr [c]) s)"
| "py_iter v = Inl (NotIterable (type_of v))"

fun py_join :: "string \<Rightarrow> nat \<Rightarrow> py_value list \<Rightarrow> py_exception + string" where
  \<comment> \<open>\<open>sep.join(xs)\<close>, the items counted from \<open>i\<close>: the first item that is not a str raises\<close>
  "py_join sep i [] = Inr []"
| "py_join sep i (PyStr s # xs) =
     bind_exc (py_join sep (Suc i) xs) (\<lambda>r. Inr (if xs = [] then s else s @ sep @ r))"
| "py_join sep i (v # xs) = Inl (JoinItem i (type_of v))"

subsection \<open>lookup_word_api\<close>

definition DICTIONARY_API :: string where
  "DICTIONARY_API = ''https://api.dictionaryapi.dev/api/v2/entries/en/''"

definition hex_digit :: "nat \<Rightarrow> char" where
  \<comment> \<open>used below 16 only\<close>
  "hex_digit d = ''0123456789ABCDEF'' ! d"

definition unreserved :: "char \<Rightarrow> bool" where
  \<comment> \<open>the characters \<open>quote\<close> never encodes, and its default \<open>safe='/'\<close>\<close>
  "unreserved c = (let n = (of_char c :: nat) in
     (65 \<le> n \<and> n \<le> 90) \<or> (97 \<le> n \<and> n \<le> 122) \<or> (48 \<le> n \<and> n \<le> 57)
     \<or> c \<in> set ''_.-~/'')"

definition quote :: "string \<Rightarrow> string" where
  \<comment> \<open>\<open>requests.utils.quote\<close> once the word is encoded (\<open>encode_utf8\<close> below is the step
      that can raise): percent-encoding of the UTF-8 bytes\<close>
  "quote s = concat (map (\<lambda>c. if unreserved c then [c]
       else [CHR ''%'', hex_digit (of_char c div 16), hex_digit (of_char c mod 16)]) s)"

record response =
  status_code :: int
  json :: "py_exception + py_value"
  \<comment> \<open>\<open>r.json()\<close>: the decoded body, or the exception it raises\<close>

datatype http_outcome = Raised py_exception | Responded response

definition format_defn :: "py_runtime \<Rightarrow> nat \<Rightarrow> py_value \<Rightarrow> py_exception + string list" where
  \<comment> \<open>the body of the loop over \<open>enumerate(..., start=1)\<close>\<close>
  "format_defn rt i defn =
     bind_exc (py_get defn ''definition'' (PyStr [])) (\<lambda>d.
     bind_exc (py_get defn ''example'' (PyStr [])) (\<lambda>ex.
     Inr ((''  '' @ str_nat i @ ''. '' @ py_format rt d)
          # (if py_truthy rt ex then [''     e.g., '' @ py_format rt ex] else []))))"

fun format_defns :: "py_runtime \<Rightarrow> nat \<Rightarrow> py_value list \<Rightarrow> py_exception + string list" where
  "format_defns rt i [] = Inr []"
| "format_defns rt i (defn # rest) =
     bind_exc (format_defn rt i defn) (\<lambda>ls.
     bind_exc (format_defns rt (Suc i) rest) (\<lambda>ls'. Inr (ls @ ls')))"

definition format_meaning :: "py_runtime \<Rightarrow> py_value \<Rightarrow> py_exception + string list" where
  "format_meaning rt meaning =
     bind_exc (py_get meaning ''partOfSpeech'' (PyStr [])) (\<lambda>part.
     bind_exc (py_get meaning ''definitions'' (PyList [])) (\<lambda>defs.
     bind_exc (py_iter defs) (\<lambda>ds.
     bind_exc (format_defns rt 1 ds) (\<lambda>ls.
     Inr ((CHR 0x0A # ''Part of speech: '' @ py_format rt part) # ls)))))"

fun format_meanings :: "py_runtime \<Rightarrow> py_value list \<Rightarrow> py_exception + string list" where
  "format_meanings rt [] = Inr []"
| "format_meanings rt (meaning # rest) =
     bind_exc (format_meaning rt meaning) (\<lambda>ls.
     bind_exc (format_meanings rt rest) (\<lambda>ls'. Inr (ls @ ls')))"

fun phonetic_texts :: "py_runtime \<Rightarrow> py_value list \<Rightarrow> py_exception + py_value list" where
  \<comment> \<open>\<open>[p.get("text","") for p in ... if p.get("text")]\<close>\<close>
  "phonetic_texts rt [] = Inr []"
| "phonetic_texts rt (p # rest) =
     bind_exc (py_get p ''text'' PyNone) (\<lambda>t.
     if py_truthy rt t
     then bind_exc (py_get p ''text'' (PyStr [])) (\<lambda>v.
          bind_exc (phonetic_texts rt rest) (\<lambda>vs. Inr (v # vs)))
     else phonetic_texts rt rest)"

definition word_lines :: "py_runtime \<Rightarrow> py_value \<Rightarrow> py_exception + string list" where
  "word_lines rt entry =
     bind_exc (py_contains ''word'' entry) (\<lambda>has.
     if has then bind_exc (py_get entry ''word'' PyNone) (\<lambda>w. Inr [''Word: '' @ py_format rt w])
     else Inr [])"

definition phonetics_lines :: "py_runtime \<Rightarrow> py_value \<Rightarrow> py_exception + string list" where
  "phonetics_lines rt entry =
     bind_exc (py_contains ''phonetics'' entry) (\<lambda>has.
     if has then
       bind_exc (py_getitem entry ''phonetics'') (\<lambda>phs.
       if py_truthy rt phs then
         bind_exc (py_getitem entry ''phonetics'') (\<lambda>phs'.
         bind_exc (py_iter phs') (\<lambda>ps.
         bind_exc (phonetic_texts rt ps) (\<lambda>ph.
         if ph \<noteq> [] then bind_exc (py_join '', '' 0 ph) (\<lambda>j. Inr [''Pronunciation: '' @ j])
         else Inr [])))
       else Inr [])
     else Inr [])"

definition meanings_lines :: "py_runtime \<Rightarrow> py_value \<Rightarrow> py_exception + string list" where
  "meanings_lines rt entry =
     bind_exc (py_contains ''meanings'' entry) (\<lambda>has.
     if has then
       bind_exc (py_getitem entry ''meanings'') (\<lambda>ms.
       bind_exc (py_iter ms) (\<lambda>ms'. format_meanings rt ms'))
     else Inr [])"

definition format_entry :: "py_runtime \<Rightarrow> py_value \<Rightarrow> py_exception + string list" where
  \<comment> \<open>the body of \<open>for entry in data\<close>: the lines it appends to \<open>out_lines\<close>\<close>
  "format_entry rt entry =
     bind_exc (word_lines rt entry) (\<lambda>l1.
     bind_exc (phonetics_lines rt entry) (\<lambda>l2.
     bind_exc (meanings_lines rt entry) (\<lambda>l3. Inr (l1 @ l2 @ l3))))"

fun format_entries :: "py_runtime \<Rightarrow> py_value list \<Rightarrow> py_exception + string list" where
  "format_entries rt [] = Inr []"
| "format_entries rt (entry # rest) =
     bind_exc (format_entry rt entry) (\<lambda>ls.
     bind_exc (format_entries rt rest) (\<lambda>ls'. Inr (ls @ ls')))"

definition out_lines :: "py_runtime \<Rightarrow> response \<Rightarrow> py_exception + string list" where
  \<comment> \<open>the \<open>try\<close> block of the 200 branch up to its \<open>return\<close>\<close>
  "out_lines rt r =
     bind_exc (json r) (\<lambda>data.
     bind_exc (py_iter data) (\<lambda>entries. format_entries rt entries))"

definition lookup_word_api ::
  "py_runtime \<Rightarrow> (string \<Rightarrow> http_outcome) \<Rightarrow> string \<Rightarrow> string option" where
  \<comment> \<open>\<open>get\<close> stands for \<open>requests.get(url, timeout=6)\<close>; the result is Python's str or None\<close>
  "lookup_word_api rt get word =
     (let url = DICTIONARY_API @ quote word in
      case get url of
        Raised e \<Rightarrow> Some (''Error contacting dictionary API: '' @ exc_str rt e)
      | Responded r \<Rightarrow>
          if status_code r = 200 then
            (case out_lines rt r of
               Inl e \<Rightarrow> Some (''Error parsing API response: '' @ exc_str rt e)
             | Inr ls \<Rightarrow> if ls \<noteq> [] then Some (join [CHR 0x0A] ls) else None)
          else if status_code r = 404 then None
          else Some (''Unexpected API response: '' @ str_int (status_code r)))"

subsection \<open>The lookup on any Python str\<close>

text \<open>
  A Python str is a sequence of code points and may hold a lone surrogate (U+D800 to
  U+DFFF), which has no UTF-8 encoding. \<open>requests.utils.quote(word)\<close> encodes the word
  first, and it stands before the first \<open>try\<close> of \<open>lookup_word_api\<close>: on such a word the
  \<open>UnicodeEncodeError\<close> leaves the function. \<open>lookup_word_api\<close> above is the function on
  the words that encode; \<open>lookup_word_api_str\<close> is the function on every str.
\<close>

type_synonym py_str = "nat list"

definition encode_point :: "nat \<Rightarrow> py_exception + string" where
  \<comment> \<open>the UTF-8 bytes of one code point\<close>
  "encode_point c =
     (if c < 0x80 then Inr [char_of c]
      else if c < 0x800 then Inr [char_of (0xC0 + c div 64), char_of (0x80 + c mod 64)]
      else if 0xD800 \<le> c \<and> c \<le> 0xDFFF then Inl UnicodeEncodeError
      else if c < 0x10000 then
        Inr [char_of (0xE0 + c div 4096), char_of (0x80 + c div 64 mod 64),
             char_of (0x80 + c mod 64)]
      else
        Inr [char_of (0xF0 + c div 262144), char_of (0x80 + c div 4096 mod 64),
             char_of (0x80 + c div 64 mod 64), char_of (0x80 + c mod 64)])"

fun encode_utf8 :: "py_str \<Rightarrow> py_exception + string" where
  \<comment> \<open>\<open>s.encode('utf-8')\<close>\<close>
  "encode_utf8 [] = Inr []"
| "encode_utf8 (c # cs) =
     bind_exc (encode_point c) (\<lambda>b.
     bind_exc (encode_utf8 cs) (\<lambda>bs. Inr (b @ bs)))"

definition lookup_word_api_str ::
  "py_runtime \<Rightarrow> (string \<Rightarrow> http_outcome) \<Rightarrow> py_str \<Rightarrow> py_exception + string option" where
  \<comment> \<open>\<open>Inl\<close>: the exception that leaves \<open>lookup_word_api(word)\<close>\<close>
  "lookup_word_api_str rt get word =
     bind_exc (encode_utf8 word) (\<lambda>w. Inr (lookup_word_api rt get w))"

definition bg_lookup ::
  "py_runtime \<Rightarrow> (string \<Rightarrow> http_outcome) \<Rightarrow> py_str \<Rightarrow> string option" where
  \<comment> \<open>the result the worker of \<open>_handle_lookup_request\<close> emits with \<open>lookup_result\<close>\<close>
  "bg_lookup rt get selection =
     (case lookup_word_api_str rt get selection of
        Inr result \<Rightarrow> result
      | Inl e \<Rightarrow> Some (''__ERROR__:'' @ exc_str rt e))"

definition space_points :: "nat list" where
  \<comment> \<open>the code points \<open>str.strip()\<close> removes\<close>
  "space_points =
     [0x09, 0x0A, 0x0B, 0x0C, 0x0D, 0x1C, 0x1D, 0x1E, 0x1F, 0x20, 0x85, 0xA0, 0x1680,
      0x2000, 0x2001, 0x2002, 0x2003, 0x2004, 0x2005, 0x2006, 0x2007, 0x2008, 0x2009, 0x200A,
      0x2028, 0x2029, 0x202F, 0x205F, 0x3000]"

definition trimmed :: "py_str \<Rightarrow> bool" where
  \<comment> \<open>not empty, and \<open>strip()\<close> would remove nothing\<close>
  "trimmed t = (t \<noteq> [] \<and> hd t \<notin> set space_points \<and> last t \<notin> set space_points)"

subsection \<open>Selection capture: the hotkey worker\<close>

definition whitespace :: "string list" where
  \<comment> \<open>the UTF-8 encodings of the code points \<open>str.strip()\<close> removes\<close>
  "whitespace =
    [[CHR 0x09], [CHR 0x0A], [CHR 0x0B], [CHR 0x0C], [CHR 0x0D],
     [CHR 0x1C], [CHR 0x1D], [CHR 0x1E], [CHR 0x1F], [CHR 0x20],
     [CHR 0xC2, CHR 0x85], [CHR 0xC2, CHR 0xA0], [CHR 0xE1, CHR 0x9A, CHR 0x80],
     [CHR 0xE2, CHR 0x80, CHR 0x80], [CHR 0xE2, CHR 0x80, CHR 0x81],
     [CHR 0xE2, CHR 0x80, CHR 0x82], [CHR 0xE2, CHR 0x80, CHR 0x83],
     [CHR 0xE2, CHR 0x80, CHR 0x84], [CHR 0xE2, CHR 0x80, CHR 0x85],
     [CHR 0xE2, CHR 0x80, CHR 0x86], [CHR 0xE2, CHR 0x80, CHR 0x87],
     [CHR 0xE2, CHR 0x80, CHR 0x88], [CHR 0xE2, CHR 0x80, CHR 0x89],
     [CHR 0xE2, CHR 0x80, CHR 0x8A], [CHR 0xE2, CHR 0x80, CHR 0xA8],
     [CHR 0xE2, CHR 0x80, CHR 0xA9], [CHR 0xE2, CHR 0x80, CHR 0xAF],
     [CHR 0xE2, CHR 0x81, CHR 0x9F], [CHR 0xE3, CHR 0x80, CHR 0x80]]"

lemma whitespace_nonempty: "w \<in> set whitespace \<Longrightarrow> w \<noteq> []"
  by (auto simp: whitespace_def)

function lstrip :: "string \<Rightarrow> string" where
  "lstrip s = (case find (\<lambda>w. prefix w s) whitespace of
                 None \<Rightarrow> s
               | Some w \<Rightarrow> lstrip (drop (length w) s))"
  by pat_completeness auto
termination
proof (relation "measure length", goal_cases)
  case 1
  show ?case by simp
next
  case (2 s w)
  then have "w \<in> set whitespace" and "prefix w s"
    by (auto simp: find_Some_iff)
  then have "w \<noteq> []" and "length w \<le> length s"
    by (auto simp: whitespace_nonempty prefix_length_le)
  then show ?case by (cases w) auto
qed

function rstrip :: "string \<Rightarrow> string" where
  "rstrip s = (case find (\<lambda>w. suffix w s) whitespace of
                 None \<Rightarrow> s
               | Some w \<Rightarrow> rstrip (take (length s - length w) s))"
  by pat_completeness auto
termination
proof (relation "measure length", goal_cases)
  case 1
  show ?case by simp
next
  case (2 s w)
  then have "w \<in> set whitespace" and "suffix w s"
    by (auto simp: find_Some_iff)
  then have "w \<noteq> []" and "length w \<le> length s"
    by (auto simp: whitespace_nonempty suffix_length_le)
  then show ?case by (cases w) auto
qed

declare lstrip.simps [simp del] rstrip.simps [simp del]

definition strip :: "string \<Rightarrow> string" where
  \<comment> \<open>\<open>s.strip()\<close>\<close>
  "strip s = rstrip (lstrip s)"

inductive whitespace_only :: "string \<Rightarrow> bool" where
  empty: "whitespace_only []"
| space: "w \<in> set whitespace \<Longrightarrow> whitespace_only s \<Longrightarrow> whitespace_only (w @ s)"

datatype icon = Information | Critical

datatype message_box = MessageBox icon string string
  \<comment> \<open>\<open>QMessageBox.information(None, title, text)\<close> and \<open>QMessageBox.critical\<close>\<close>

datatype copy_outcome = HotkeyOk | FallbackOk | BothFailed
  \<comment> \<open>how the simulated copy went: none of the three changes what the worker does next\<close>

datatype clipboard = PasteFailed | Pasted string
  \<comment> \<open>\<open>pyperclip.paste()\<close>: an exception, or the text of the clipboard\<close>

datatype worker_effect = Notice message_box | request_lookup string
  \<comment> \<open>the one thing the worker does: a message box, or \<open>request_lookup.emit(selection)\<close>\<close>

definition on_hotkey_press_worker :: "copy_outcome \<Rightarrow> clipboard \<Rightarrow> worker_effect" where
  "on_hotkey_press_worker copy clip =
     (let selection = (case clip of PasteFailed \<Rightarrow> [] | Pasted s \<Rightarrow> s) in
      if selection = [] \<or> strip selection = [] then
        Notice (MessageBox Information ''No selection''
          ''No text was selected (or nothing copied). Select text and press the hotkey again.'')
      else request_lookup (strip selection))"

subsection \<open>The application: result windows and their registry\<close>

record result_window =
  window_id :: nat
  window_title :: string
  window_text :: string

text \<open>
  A \<open>ResultWindow\<close> is an object: two windows are the same window when they are the same
  object. \<open>window_id\<close> stands for that identity; \<open>next_id\<close> is the id of the next object.
  \<open>widgets\<close> are the windows that exist (created and not destroyed), \<open>visible\<close> those
  on screen, \<open>boxes\<close> the message boxes shown so far.
\<close>

record app =
  open_windows :: "result_window list"
  widgets :: "result_window list"
  visible :: "result_window list"
  boxes :: "message_box list"
  next_id :: nat

definition init_app :: app where
  "init_app = \<lparr>open_windows = [], widgets = [], visible = [], boxes = [], next_id = 0\<rparr>"

definition split_after_colon :: "string \<Rightarrow> string" where
  \<comment> \<open>\<open>result.split(":", 1)[1]\<close> of a text that holds a colon\<close>
  "split_after_colon s = tl (dropWhile (\<lambda>c. c \<noteq> CHR '':'') s)"

text \<open>
  The result handed to \<open>_handle_lookup_result\<close> is what \<open>bg_lookup\<close> emits: the value
  \<open>lookup_word_api\<close> returned or, had the lookup raised, the text \<open>__ERROR__:\<close> followed by the
  exception (\<open>bg_lookup\<close> above).
\<close>

definition handle_lookup_result :: "app \<Rightarrow> string \<Rightarrow> string option \<Rightarrow> app" where
  "handle_lookup_result a selection result =
     (if (case result of Some s \<Rightarrow> prefix ''__ERROR__:'' s | None \<Rightarrow> False) then
        a\<lparr>boxes := boxes a @ [MessageBox Critical ''Lookup Error''
             (''Error while looking up '' @ [CHR 0x22] @ selection @ [CHR 0x22] @ '':''
              @ [CHR 0x0A] @ split_after_colon (the result))]\<rparr>
      else case result of
        None \<Rightarrow>
          a\<lparr>boxes := boxes a @ [MessageBox Information ''Not found''
               (''No such word exists: '' @ [CHR 0x22] @ selection @ [CHR 0x22])]\<rparr>
      | Some report \<Rightarrow>
          (let resw = \<lparr>window_id = next_id a, window_title = ''Meaning: '' @ selection,
                        window_text = report\<rparr>
           in a\<lparr>widgets := widgets a @ [resw], visible := visible a @ [resw],
                open_windows := open_windows a @ [resw], next_id := Suc (next_id a)\<rparr>))"

definition list_remove :: "'a \<Rightarrow> 'a list \<Rightarrow> py_exception + 'a list" where
  \<comment> \<open>\<open>xs.remove(x)\<close>: the first occurrence goes; ValueError when there is none\<close>
  "list_remove x xs = (if x \<in> set xs then Inr (remove1 x xs) else Inl ValueError)"

definition remove_window_ref :: "app \<Rightarrow> result_window \<Rightarrow> app" where
  "remove_window_ref a w =
     (case (if w \<in> set (open_windows a)
            then bind_exc (list_remove w (open_windows a)) (\<lambda>ws. Inr (a\<lparr>open_windows := ws\<rparr>))
            else Inr a) of
        Inl e \<Rightarrow> a
      | Inr a' \<Rightarrow> a')"

definition on_continue :: "app \<Rightarrow> result_window \<Rightarrow> app" where
  \<comment> \<open>\<open>self.close()\<close>: the window leaves the screen\<close>
  "on_continue a w = a\<lparr>visible := removeAll w (visible a)\<rparr>"

definition on_destroyed :: "app \<Rightarrow> result_window \<Rightarrow> app" where
  \<comment> \<open>the object is deleted and its \<open>destroyed\<close> signal runs the connected lambda\<close>
  "on_destroyed a w =
     remove_window_ref (a\<lparr>widgets := removeAll w (widgets a),
                           visible := removeAll w (visible a)\<rparr>) w"

inductive reachable :: "app \<Rightarrow> bool" where
  start: "reachable init_app"
| lookup_result: "reachable a \<Longrightarrow> reachable (handle_lookup_result a selection result)"
| continue: "reachable a \<Longrightarrow> w \<in> set (visible a) \<Longrightarrow> reachable (on_continue a w)"
| destroyed: "reachable a \<Longrightarrow> w \<in> set (widgets a) \<Longrightarrow> reachable (on_destroyed a w)"

definition registry_ok :: "app \<Rightarrow> bool" where
  \<comment> \<open>what every state of the application satisfies\<close>
  "registry_ok a = (distinct (open_windows a)
     \<and> set (widgets a) \<subseteq> set (open_windows a)
     \<and> set (visible a) \<subseteq> set (widgets a)
     \<and> list_all (\<lambda>w. window_id w < next_id a) (open_windows a))"

subsection \<open>Provider responses of the documented shape\<close>

text \<open>
  The body the dictionary provider documents: a sequence of entries, each optionally with a
  \<open>word\<close>, \<open>phonetics\<close> (objects with a \<open>text\<close>) and \<open>meanings\<close> (objects with a
  \<open>partOfSpeech\<close> and \<open>definitions\<close>, each a \<open>definition\<close> with an optional \<open>example\<close>).
  \<open>None\<close> is a key that is absent.
\<close>

datatype defn = Defn (defn_definition: "string option") (defn_example: "string option")

datatype meaning =
  Meaning (meaning_partOfSpeech: "string option") (meaning_definitions: "defn list option")

datatype phonetic = Phonetic (phonetic_text: "string option")

datatype entry =
  Entry (entry_word: "string option") (entry_phonetics: "phonetic list option")
    (entry_meanings: "meaning list option")

fun item :: "string \<Rightarrow> py_value option \<Rightarrow> (string \<times> py_value) list" where
  "item k None = []"
| "item k (Some v) = [(k, v)]"

definition defn_obj :: "defn \<Rightarrow> py_value" where
  "defn_obj d = PyDict (item ''definition'' (map_option PyStr (defn_definition d))
                        @ item ''example'' (map_option PyStr (defn_example d)))"

definition meaning_obj :: "meaning \<Rightarrow> py_value" where
  "meaning_obj m = PyDict (item ''partOfSpeech'' (map_option PyStr (meaning_partOfSpeech m))
     @ item ''definitions'' (map_option (\<lambda>ds. PyList (map defn_obj ds)) (meaning_definitions m)))"

definition phonetic_obj :: "phonetic \<Rightarrow> py_value" where
  "phonetic_obj p = PyDict (item ''text'' (map_option PyStr (phonetic_text p)))"

definition entry_obj :: "entry \<Rightarrow> py_value" where
  "entry_obj e = PyDict (item ''word'' (map_option PyStr (entry_word e))
     @ item ''phonetics'' (map_option (\<lambda>ps. PyList (map phonetic_obj ps)) (entry_phonetics e))
     @ item ''meanings'' (map_option (\<lambda>ms. PyList (map meaning_obj ms)) (entry_meanings e)))"

text \<open>
  The report as the specification words it: the word line, the pronunciation line (only if
  any phonetic text exists), per meaning a blank line and its part of speech, then the
  numbered definitions, each followed by its example when it has one.
\<close>

fun or_empty :: "string option \<Rightarrow> string" where
  "or_empty None = []"
| "or_empty (Some s) = s"

definition numbered_line :: "nat \<Rightarrow> defn \<Rightarrow> string" where
  "numbered_line i d = ''  '' @ str_nat i @ ''. '' @ or_empty (defn_definition d)"

definition example_lines :: "defn \<Rightarrow> string list" where
  "example_lines d = (if or_empty (defn_example d) = [] then []
                      else [''     e.g., '' @ or_empty (defn_example d)])"

definition defn_lines :: "nat \<Rightarrow> defn \<Rightarrow> string list" where
  "defn_lines i d = numbered_line i d # example_lines d"

fun numbered_lines :: "nat \<Rightarrow> defn list \<Rightarrow> string list" where
  "numbered_lines i [] = []"
| "numbered_lines i (d # ds) = defn_lines i d @ numbered_lines (Suc i) ds"

definition part_line :: "meaning \<Rightarrow> string" where
  "part_line m = CHR 0x0A # ''Part of speech: '' @ or_empty (meaning_partOfSpeech m)"

definition meaning_lines :: "meaning \<Rightarrow> string list" where
  "meaning_lines m =
     part_line m # numbered_lines 1 (case meaning_definitions m of None \<Rightarrow> [] | Some ds \<Rightarrow> ds)"

definition phonetic_line :: "phonetic list \<Rightarrow> string list" where
  "phonetic_line ps =
     (let ph = filter (\<lambda>t. t \<noteq> []) (map (\<lambda>p. or_empty (phonetic_text p)) ps)
      in if ph = [] then [] else [''Pronunciation: '' @ join '', '' ph])"

definition entry_lines :: "entry \<Rightarrow> string list" where
  "entry_lines e =
     (case entry_word e of None \<Rightarrow> [] | Some w \<Rightarrow> [''Word: '' @ w])
     @ (case entry_phonetics e of None \<Rightarrow> [] | Some ps \<Rightarrow> phonetic_line ps)
     @ (case entry_meanings e of None \<Rightarrow> [] | Some ms \<Rightarrow> concat (map meaning_lines ms))"

definition report_lines :: "entry list \<Rightarrow> string list" where
  "report_lines es = concat (map entry_lines es)"

definition is_word_line :: "string \<Rightarrow> bool" where
  "is_word_line l = prefix ''Word: '' l"

definition is_definition_line :: "string \<Rightarrow> bool" where
  \<comment> \<open>two blanks, then a number\<close>
  "is_definition_line l = (prefix ''  '' l \<and> list_ex (\<lambda>c. c \<in> set ''0123456789'') (take 1 (drop 2 l)))"

definition is_example_line :: "string \<Rightarrow> bool" where
  "is_example_line l = prefix ''     e.g., '' l"

definition meanings_of :: "entry \<Rightarrow> meaning list" where
  "meanings_of e = (case entry_meanings e of None \<Rightarrow> [] | Some ms \<Rightarrow> ms)"

definition definitions_of :: "meaning \<Rightarrow> defn list" where
  "definitions_of m = (case meaning_definitions m of None \<Rightarrow> [] | Some ds \<Rightarrow> ds)"

definition examples_follow :: "string list \<Rightarrow> bool" where
  "examples_follow ls =
     (\<forall>p<length ls. is_example_line (ls ! p) \<longrightarrow> 0 < p \<and> is_definition_line (ls ! (p - 1)))"

fun split_lines :: "string \<Rightarrow> string list" where
  "split_lines [] = [[]]"
| "split_lines (c # cs) =
     (if c = CHR 0x0A then [] # split_lines cs
      else (case split_lines cs of [] \<Rightarrow> [[c]] | l # ls \<Rightarrow> (c # l) # ls))"

definition phonetics_of :: "entry \<Rightarrow> phonetic list" where
  "phonetics_of e = (case entry_phonetics e of None \<Rightarrow> [] | Some ps \<Rightarrow> ps)"

definition one_line :: "string option \<Rightarrow> bool" where
  "one_line t = (CHR 0x0A \<notin> set (or_empty t))"

definition one_line_entry :: "entry \<Rightarrow> bool" where
  "one_line_entry e =
     (one_line (entry_word e)
      \<and> list_all (\<lambda>p. one_line (phonetic_text p)) (phonetics_of e)
      \<and> list_all (\<lambda>m. one_line (meaning_partOfSpeech m)
           \<and> list_all (\<lambda>d. one_line (defn_definition d) \<and> one_line (defn_example d))
                (definitions_of m)) (meanings_of e))"

definition item_ok :: "string \<Rightarrow> bool" where
  "item_ok l = (CHR 0x0A \<notin> set l
     \<or> (\<exists>p. l = CHR 0x0A # ''Part of speech: '' @ p \<and> CHR 0x0A \<notin> set p))"

fun follows :: "bool \<Rightarrow> string list \<Rightarrow> bool" where
  "follows b [] = True"
| "follows b (l # ls) = ((is_example_line l \<longrightarrow> b) \<and> follows (is_definition_line l) ls)"

definition report_text :: "entry list \<Rightarrow> string list" where
  "report_text es = split_lines (join [CHR 0x0A] (report_lines es))"

definition returned_lines :: "string option \<Rightarrow> string list" where
  \<comment> \<open>the lines of the report a lookup returned; none when it returned None\<close>
  "returned_lines result = (case result of None \<Rightarrow> [] | Some report \<Rightarrow> split_lines report)"

definition opens :: "string list \<Rightarrow> bool" where
  \<comment> \<open>no line at all, or a first line that begins as a word, pronunciation or part-of-speech line\<close>
  "opens ls = (ls = [] \<or> (\<exists>c cs rest. ls = (c # cs) # rest \<and> c \<in> set (''WP'' @ [CHR 0x0A])))"

subsection \<open>The three outcomes of a lookup\<close>

datatype outcome_kind = Success | NotFound | Error

definition error_text :: "string \<Rightarrow> bool" where
  \<comment> \<open>the three texts \<open>lookup_word_api\<close> returns on a failure\<close>
  "error_text s = (prefix ''Error contacting dictionary API: '' s
                   \<or> prefix ''Error parsing API response: '' s
                   \<or> prefix ''Unexpected API response: '' s)"

definition kind_of :: "string option \<Rightarrow> outcome_kind" where
  \<comment> \<open>the outcome a returned value stands for\<close>
  "kind_of result = (case result of None \<Rightarrow> NotFound
                     | Some s \<Rightarrow> if error_text s then Error else Success)"

definition spec_outcome :: "py_runtime \<Rightarrow> http_outcome \<Rightarrow> outcome_kind" where
  \<comment> \<open>the outcome the specification gives each way the request can go\<close>
  "spec_outcome rt h =
     (case h of
        Raised e \<Rightarrow> Error
      | Responded r \<Rightarrow>
          if status_code r = 200 then
            (case out_lines rt r of Inl e \<Rightarrow> Error
             | Inr ls \<Rightarrow> if ls = [] then NotFound else Success)
          else if status_code r = 404 then NotFound
          else Error)"

subsection \<open>Sample inputs\<close>

definition sample_runtime :: py_runtime where
  "sample_runtime = \<lparr>exc_str = (\<lambda>e. ''failed''), value_str = (\<lambda>v. ''?''),
                      float_truth = (\<lambda>x. True)\<rparr>"

definition run_entry :: py_value where
  \<comment> \<open>the entry for "run", its transcription in UTF-8\<close>
  "run_entry = PyDict
     [(''word'', PyStr ''run''),
      (''phonetics'', PyList [PyDict [(''text'', PyStr (''/r'' @ [CHR 0xCA, CHR 0x8C] @ ''n/''))]]),
      (''meanings'', PyList [PyDict
         [(''partOfSpeech'', PyStr ''verb''),
          (''definitions'', PyList [PyDict
             [(''definition'', PyStr ''move fast''), (''example'', PyStr ''She ran.'')]])]])]"

definition answering :: "int \<Rightarrow> py_exception + py_value \<Rightarrow> string \<Rightarrow> http_outcome" where
  \<comment> \<open>a provider that answers every request with the same status and body\<close>
  "answering status body url = Responded \<lparr>status_code = status, json = body\<rparr>"

definition sample_window :: result_window where
  "sample_window = \<lparr>window_id = 0, window_title = ''Meaning: run'', window_text = ''Word: run''\<rparr>"

definition sample_app :: app where
  \<comment> \<open>the application after one successful lookup\<close>
  "sample_app = handle_lookup_result init_app ''run'' (Some ''Word: run'')"

definition sample_entries :: "entry list" where
  "sample_entries =
     [Entry (Some ''run'') None (Some [Meaning (Some ''verb'')
        (Some [Defn (Some ''move fast'') (Some ''She ran.''), Defn (Some ''flow'') None])]),
      Entry (Some ''walk'') None (Some [Meaning (Some ''verb'')
        (Some [Defn (Some ''go on foot'') None, Defn (Some ''stroll'') (Some [])])])]"

definition newline_entries :: "entry list" where
  \<comment> \<open>one entry, one meaning, one definition; the word holds a newline\<close>
  "newline_entries =
     [Entry (Some (''a'' @ [CHR 0x0A] @ ''Word: b'')) None
        (Some [Meaning (Some ''noun'') (Some [Defn (Some ''first letter'') None])])]"

definition bare_entries :: "entry list" where
  \<comment> \<open>one entry whose only meaning has no part of speech and no definitions\<close>
  "bare_entries = [Entry (Some ''hm'') None (Some [Meaning None (Some [])])]"

section \<open>Properties\<close>

subsection \<open>Basic facts\<close>

lemma bind_exc_simps [simp]: "bind_exc (Inl e) f = Inl e" "bind_exc (Inr v) f = f v"
  by (simp_all add: bind_exc_def)

lemma str_nat_one [simp]: "str_nat (Suc 0) = ''1''"
  by (simp add: str_nat.simps digit_char_def)

lemma digit_char_digit: "d < 10 \<Longrightarrow> digit_char d \<in> set ''0123456789''"
proof -
  assume "d < 10"
  then have "d \<in> {0, 1, 2, 3, 4, 5, 6, 7, 8, 9}" by auto
  then show ?thesis by (auto simp: digit_char_def)
qed

lemma str_nat_hd: "\<exists>c cs. str_nat n = c # cs \<and> c \<in> set ''0123456789''"
proof (induction n rule: str_nat.induct)
  case (1 n)
  show ?case
  proof (cases "n < 10")
    case True
    then show ?thesis using digit_char_digit [of n] by (simp add: str_nat.simps [of n])
  next
    case False
    with 1 obtain c cs where "str_nat (n div 10) = c # cs" "c \<in> set ''0123456789''" by blast
    with False show ?thesis by (simp add: str_nat.simps [of n])
  qed
qed

lemma format_defn_obj: "format_defn rt i (defn_obj d) = Inr (defn_lines i d)"
  by (cases d; cases "defn_definition d"; cases "defn_example d")
     (auto simp: format_defn_def defn_obj_def defn_lines_def numbered_line_def example_lines_def)

lemma format_defns_obj: "format_defns rt i (map defn_obj ds) = Inr (numbered_lines i ds)"
  by (induction ds arbitrary: i) (simp_all add: format_defn_obj)

lemma format_meaning_obj: "format_meaning rt (meaning_obj m) = Inr (meaning_lines m)"
  by (cases m; cases "meaning_partOfSpeech m"; cases "meaning_definitions m")
     (auto simp: format_meaning_def meaning_obj_def meaning_lines_def part_line_def format_defns_obj)

lemma format_meanings_obj:
  "format_meanings rt (map meaning_obj ms) = Inr (concat (map meaning_lines ms))"
  by (induction ms) (simp_all add: format_meaning_obj)

lemma py_join_strs: "py_join sep i (map PyStr xs) = Inr (join sep xs)"
proof (induction xs arbitrary: i)
  case Nil
  show ?case by simp
next
  case (Cons x xs)
  then show ?case by (cases xs) simp_all
qed

lemma phonetic_texts_obj:
  "phonetic_texts rt (map phonetic_obj ps)
   = Inr (map PyStr (filter (\<lambda>t. t \<noteq> []) (map (\<lambda>p. or_empty (phonetic_text p)) ps)))"
proof (induction ps)
  case Nil
  show ?case by simp
next
  case (Cons p ps)
  then show ?case
    by (cases p; cases "phonetic_text p") (auto simp: phonetic_obj_def)
qed

lemma word_lines_obj:
  "word_lines rt (entry_obj e) = Inr (case entry_word e of None \<Rightarrow> [] | Some w \<Rightarrow> [''Word: '' @ w])"
  by (cases e; cases "entry_word e"; cases "entry_phonetics e"; cases "entry_meanings e")
     (auto simp: word_lines_def entry_obj_def)

lemma phonetics_lines_obj:
  "phonetics_lines rt (entry_obj e)
   = Inr (case entry_phonetics e of None \<Rightarrow> [] | Some ps \<Rightarrow> phonetic_line ps)"
  by (cases e; cases "entry_word e"; cases "entry_phonetics e"; cases "entry_meanings e")
     (auto simp: phonetics_lines_def entry_obj_def phonetic_texts_obj py_join_strs phonetic_line_def Let_def)

lemma meanings_lines_obj:
  "meanings_lines rt (entry_obj e)
   = Inr (case entry_meanings e of None \<Rightarrow> [] | Some ms \<Rightarrow> concat (map meaning_lines ms))"
  by (cases e; cases "entry_word e"; cases "entry_phonetics e"; cases "entry_meanings e")
     (auto simp: meanings_lines_def entry_obj_def format_meanings_obj)

lemma format_entry_obj: "format_entry rt (entry_obj e) = Inr (entry_lines e)"
  by (simp add: format_entry_def word_lines_obj phonetics_lines_obj meanings_lines_obj entry_lines_def)

lemma format_entries_obj: "format_entries rt (map entry_obj es) = Inr (report_lines es)"
  by (induction es) (simp_all add: format_entry_obj report_lines_def)

lemma out_lines_obj:
  "json r = Inr (PyList (map entry_obj es)) \<Longrightarrow> out_lines rt r = Inr (report_lines es)"
  by (simp add: out_lines_def format_entries_obj)

subsection \<open>How a report begins\<close>

lemma opens_Nil [simp]: "opens []"
  by (simp add: opens_def)

lemma opens_append: "opens xs \<Longrightarrow> opens ys \<Longrightarrow> opens (xs @ ys)"
  by (cases xs) (auto simp: opens_def)

lemma bind_exc_Inr:
  "bind_exc m f = Inr y \<longleftrightarrow> (\<exists>v. m = Inr v \<and> f v = Inr y)"
  by (cases m) simp_all

lemma word_lines_opens: "word_lines rt e = Inr ls \<Longrightarrow> opens ls"
  by (auto simp: word_lines_def bind_exc_Inr opens_def split: if_splits)

lemma phonetics_lines_opens: "phonetics_lines rt e = Inr ls \<Longrightarrow> opens ls"
  by (auto simp: phonetics_lines_def bind_exc_Inr opens_def split: if_splits)

lemma format_meaning_opens: "format_meaning rt m = Inr ls \<Longrightarrow> opens ls \<and> ls \<noteq> []"
  by (auto simp: format_meaning_def bind_exc_Inr opens_def)

lemma format_meanings_opens: "format_meanings rt ms = Inr ls \<Longrightarrow> opens ls"
proof (induction ms arbitrary: ls)
  case Nil
  then show ?case by simp
next
  case (Cons m ms)
  then show ?case
    by (auto simp: bind_exc_Inr dest!: format_meaning_opens intro: opens_append)
qed

lemma meanings_lines_opens: "meanings_lines rt e = Inr ls \<Longrightarrow> opens ls"
  by (auto simp: meanings_lines_def bind_exc_Inr split: if_splits dest: format_meanings_opens)

lemma format_entry_opens: "format_entry rt e = Inr ls \<Longrightarrow> opens ls"
  by (auto simp: format_entry_def bind_exc_Inr
      intro!: opens_append dest: word_lines_opens phonetics_lines_opens meanings_lines_opens)

lemma format_entries_opens: "format_entries rt es = Inr ls \<Longrightarrow> opens ls"
proof (induction es arbitrary: ls)
  case Nil
  then show ?case by simp
next
  case (Cons e es)
  then show ?case
    by (auto simp: bind_exc_Inr intro!: opens_append dest: format_entry_opens)
qed

lemma out_lines_opens: "out_lines rt r = Inr ls \<Longrightarrow> opens ls"
  by (auto simp: out_lines_def bind_exc_Inr dest: format_entries_opens)

lemma join_Cons_Cons: "join sep ((c # cs) # rest) = c # (join sep (cs # rest))"
  by (cases rest) simp_all

lemma report_not_error_text:
  assumes "opens ls" and "ls \<noteq> []"
  shows "\<not> error_text (join [CHR 0x0A] ls)"
  using assms by (auto simp: opens_def error_text_def join_Cons_Cons)

lemma part_line_in_report:
  assumes "e \<in> set es" and "entry_meanings e = Some ms" and "m \<in> set ms"
  shows "part_line m \<in> set (report_lines es)"
  using assms
  by (auto simp: report_lines_def entry_lines_def meaning_lines_def
      intro!: bexI [of _ e] bexI [of _ m])

subsection \<open>Kinds of lines\<close>

lemma numbered_line_kind:
  "is_definition_line (numbered_line i d)" "\<not> is_word_line (numbered_line i d)"
  "\<not> is_example_line (numbered_line i d)"
proof -
  obtain c cs where "str_nat i = c # cs" "c \<in> set ''0123456789''"
    using str_nat_hd by blast
  then show "is_definition_line (numbered_line i d)" "\<not> is_word_line (numbered_line i d)"
    "\<not> is_example_line (numbered_line i d)"
    by (auto simp: is_definition_line_def is_word_line_def is_example_line_def numbered_line_def)
qed

lemma example_lines_kind:
  "l \<in> set (example_lines d) \<Longrightarrow> is_example_line l \<and> \<not> is_word_line l \<and> \<not> is_definition_line l"
  by (auto simp: example_lines_def is_example_line_def is_word_line_def is_definition_line_def
      split: if_splits)

lemma part_line_kind:
  "\<not> is_word_line (part_line m)" "\<not> is_definition_line (part_line m)"
  "\<not> is_example_line (part_line m)"
  by (simp_all add: part_line_def is_word_line_def is_definition_line_def is_example_line_def)

lemma phonetic_line_kind:
  "l \<in> set (phonetic_line ps) \<Longrightarrow> \<not> is_word_line l \<and> \<not> is_definition_line l \<and> \<not> is_example_line l"
  by (auto simp: phonetic_line_def Let_def is_word_line_def is_definition_line_def
      is_example_line_def split: if_splits)

lemma word_line_kind:
  "is_word_line (''Word: '' @ w)" "\<not> is_definition_line (''Word: '' @ w)"
  "\<not> is_example_line (''Word: '' @ w)"
  by (simp_all add: is_word_line_def is_definition_line_def is_example_line_def)

lemmas word_line_kind' = word_line_kind [simplified]

subsection \<open>Counting\<close>

lemma filter_none: "(\<And>l. l \<in> set ls \<Longrightarrow> \<not> P l) \<Longrightarrow> filter P ls = []"
  by (induction ls) auto

lemma defn_lines_words: "filter is_word_line (defn_lines i d) = []"
  by (rule filter_none) (auto simp: defn_lines_def numbered_line_kind dest: example_lines_kind)

lemma defn_lines_definitions: "length (filter is_definition_line (defn_lines i d)) = 1"
proof -
  have "filter is_definition_line (example_lines d) = []"
    by (rule filter_none) (auto dest: example_lines_kind)
  then show ?thesis by (simp add: defn_lines_def numbered_line_kind)
qed

lemma numbered_lines_words: "filter is_word_line (numbered_lines i ds) = []"
  by (induction ds arbitrary: i) (simp_all add: defn_lines_words)

lemma numbered_lines_definitions:
  "length (filter is_definition_line (numbered_lines i ds)) = length ds"
  by (induction ds arbitrary: i) (simp_all add: defn_lines_definitions)

lemma meaning_lines_words: "filter is_word_line (meaning_lines m) = []"
  by (simp add: meaning_lines_def part_line_kind numbered_lines_words)

lemma meaning_lines_definitions:
  "length (filter is_definition_line (meaning_lines m)) = length (definitions_of m)"
  by (simp add: meaning_lines_def part_line_kind numbered_lines_definitions definitions_of_def)

lemma concat_words: "filter is_word_line (concat (map meaning_lines ms)) = []"
  by (induction ms) (simp_all add: meaning_lines_words)

lemma concat_count:
  "(\<And>x. x \<in> set xs \<Longrightarrow> length (filter P (f x)) = k)
   \<Longrightarrow> length (filter P (concat (map f xs))) = length xs * k"
  by (induction xs) simp_all

lemma entry_lines_words:
  "length (filter is_word_line (entry_lines e)) = (if entry_word e = None then 0 else 1)"
proof -
  have "filter is_word_line (case entry_phonetics e of None \<Rightarrow> [] | Some ps \<Rightarrow> phonetic_line ps) = []"
    by (rule filter_none) (auto split: option.splits dest: phonetic_line_kind)
  moreover have "filter is_word_line
      (case entry_meanings e of None \<Rightarrow> [] | Some ms \<Rightarrow> concat (map meaning_lines ms)) = []"
    by (simp add: concat_words split: option.splits)
  ultimately show ?thesis
    by (simp add: entry_lines_def word_line_kind' split: option.splits)
qed

lemma entry_lines_definitions:
  assumes "\<And>m. m \<in> set (meanings_of e) \<Longrightarrow> length (definitions_of m) = k"
  shows "length (filter is_definition_line (entry_lines e)) = length (meanings_of e) * k"
proof -
  have "filter is_definition_line
      (case entry_phonetics e of None \<Rightarrow> [] | Some ps \<Rightarrow> phonetic_line ps) = []"
    by (rule filter_none) (auto split: option.splits dest: phonetic_line_kind)
  moreover have "length (filter is_definition_line (concat (map meaning_lines (meanings_of e))))
      = length (meanings_of e) * k"
    using assms by (intro concat_count) (simp add: meaning_lines_definitions)
  ultimately show ?thesis
    by (simp add: entry_lines_def word_line_kind' meanings_of_def split: option.splits)
qed

lemma report_lines_words:
  assumes "\<forall>e\<in>set es. entry_word e \<noteq> None"
  shows "length (filter is_word_line (report_lines es)) = length es"
proof -
  have "length (filter is_word_line (concat (map entry_lines es))) = length es * 1"
    using assms by (intro concat_count) (simp add: entry_lines_words)
  then show ?thesis by (simp add: report_lines_def)
qed

lemma report_lines_definitions:
  assumes "\<forall>e\<in>set es. length (meanings_of e) = M"
    and "\<forall>e\<in>set es. \<forall>m\<in>set (meanings_of e). length (definitions_of m) = K"
  shows "length (filter is_definition_line (report_lines es)) = length es * (M * K)"
proof -
  have "length (filter is_definition_line (concat (map entry_lines es))) = length es * (M * K)"
  proof (rule concat_count)
    fix e assume e: "e \<in> set es"
    then have "length (filter is_definition_line (entry_lines e)) = length (meanings_of e) * K"
      using assms(2) by (intro entry_lines_definitions) simp
    with e assms(1) show "length (filter is_definition_line (entry_lines e)) = M * K" by simp
  qed
  then show ?thesis by (simp add: report_lines_def)
qed

subsection \<open>Adjacency\<close>

lemma numbered_lines_nth:
  "j < length ds \<Longrightarrow> sublist (defn_lines (i + j) (ds ! j)) (numbered_lines i ds)"
proof (induction ds arbitrary: i j)
  case Nil
  then show ?case by simp
next
  case (Cons d ds)
  show ?case
  proof (cases j)
    case 0
    then show ?thesis by simp
  next
    case (Suc j')
    with Cons.prems have "j' < length ds" by simp
    then have "sublist (defn_lines (Suc i + j') (ds ! j')) (numbered_lines (Suc i) ds)"
      by (rule Cons.IH)
    with Suc show ?thesis
      by (simp add: sublist_append)
  qed
qed

lemma sublist_concat:
  "x \<in> set xs \<Longrightarrow> sublist ys (f x) \<Longrightarrow> sublist ys (concat (map f xs))"
proof (induction xs)
  case Nil
  then show ?case by simp
next
  case (Cons a xs)
  then show ?case by (auto simp: sublist_append)
qed

lemma defn_lines_in_meaning:
  assumes "j < length (definitions_of m)"
  shows "sublist (defn_lines (Suc j) (definitions_of m ! j)) (meaning_lines m)"
proof -
  have "sublist (defn_lines (1 + j) (definitions_of m ! j)) (numbered_lines 1 (definitions_of m))"
    using assms by (rule numbered_lines_nth)
  then show ?thesis
    by (simp add: meaning_lines_def definitions_of_def sublist_Cons_right)
qed

lemma defn_lines_in_entry:
  assumes "m \<in> set (meanings_of e)" and "j < length (definitions_of m)"
  shows "sublist (defn_lines (Suc j) (definitions_of m ! j)) (entry_lines e)"
proof -
  have "sublist (defn_lines (Suc j) (definitions_of m ! j)) (concat (map meaning_lines (meanings_of e)))"
    using assms(1) defn_lines_in_meaning [OF assms(2)] by (rule sublist_concat)
  then show ?thesis
    using assms(1) by (auto simp: entry_lines_def meanings_of_def sublist_append split: option.splits)
qed

lemma defn_lines_in_report:
  assumes "e \<in> set es" and "m \<in> set (meanings_of e)" and "j < length (definitions_of m)"
  shows "sublist (defn_lines (Suc j) (definitions_of m ! j)) (report_lines es)"
  unfolding report_lines_def
  using assms(1) defn_lines_in_entry [OF assms(2,3)] by (rule sublist_concat)

subsection \<open>Examples follow definitions\<close>

lemma examples_follow_Nil [simp]: "examples_follow []"
  by (simp add: examples_follow_def)

lemma examples_follow_append:
  assumes "examples_follow xs" and "examples_follow ys"
  shows "examples_follow (xs @ ys)"
  unfolding examples_follow_def
proof (intro allI impI)
  fix p
  assume p: "p < length (xs @ ys)" and ex: "is_example_line ((xs @ ys) ! p)"
  show "0 < p \<and> is_definition_line ((xs @ ys) ! (p - 1))"
  proof (cases "p < length xs")
    case True
    with ex assms(1) have "0 < p \<and> is_definition_line (xs ! (p - 1))"
      by (simp add: examples_follow_def nth_append)
    moreover from this True have "p - 1 < length xs" by simp
    ultimately show ?thesis by (simp add: nth_append)
  next
    case False
    define q where "q = p - length xs"
    from False p have q: "q < length ys" "(xs @ ys) ! p = ys ! q"
      by (simp_all add: q_def nth_append)
    with ex assms(2) have "0 < q \<and> is_definition_line (ys ! (q - 1))"
      by (simp add: examples_follow_def)
    moreover from this False have "(xs @ ys) ! (p - 1) = ys ! (q - 1)"
      by (auto simp: q_def nth_append)
    ultimately show ?thesis by (simp add: q_def)
  qed
qed

lemma examples_follow_plain:
  "(\<And>l. l \<in> set ls \<Longrightarrow> \<not> is_example_line l) \<Longrightarrow> examples_follow ls"
  by (simp add: examples_follow_def)

lemma examples_follow_concat:
  "(\<And>x. x \<in> set xs \<Longrightarrow> examples_follow (f x)) \<Longrightarrow> examples_follow (concat (map f xs))"
  by (induction xs) (simp_all add: examples_follow_append)

lemma defn_lines_follow: "examples_follow (defn_lines i d)"
  unfolding examples_follow_def
proof (intro allI impI)
  fix p
  assume p: "p < length (defn_lines i d)" and ex: "is_example_line (defn_lines i d ! p)"
  have "length (example_lines d) \<le> 1" by (simp add: example_lines_def)
  with p have "p = 0 \<or> p = 1" by (auto simp: defn_lines_def)
  with ex show "0 < p \<and> is_definition_line (defn_lines i d ! (p - 1))"
    by (auto simp: defn_lines_def numbered_line_kind)
qed

lemma numbered_lines_follow: "examples_follow (numbered_lines i ds)"
  by (induction ds arbitrary: i) (simp_all add: examples_follow_append defn_lines_follow)

lemma meaning_lines_follow: "examples_follow (meaning_lines m)"
proof -
  have "examples_follow ([part_line m] @ numbered_lines 1 (definitions_of m))"
    by (intro examples_follow_append examples_follow_plain numbered_lines_follow)
       (simp add: part_line_kind)
  then show ?thesis by (simp add: meaning_lines_def definitions_of_def)
qed

lemma entry_lines_follow: "examples_follow (entry_lines e)"
  unfolding entry_lines_def
  by (intro examples_follow_append)
     (auto split: option.splits intro!: examples_follow_plain examples_follow_concat
        meaning_lines_follow simp: word_line_kind' dest: phonetic_line_kind)

lemma report_lines_follow: "examples_follow (report_lines es)"
  unfolding report_lines_def by (intro examples_follow_concat entry_lines_follow)

subsection \<open>The report as text\<close>

lemma split_lines_ne [simp]: "split_lines s \<noteq> []"
  by (induction s) (auto split: list.splits)

lemma split_lines_plain: "CHR 0x0A \<notin> set s \<Longrightarrow> split_lines s = [s]"
  by (induction s) auto

lemma split_lines_append:
  "split_lines (xs @ CHR 0x0A # ys) = split_lines xs @ split_lines ys"
proof (induction xs)
  case Nil
  show ?case by simp
next
  case (Cons c xs)
  then show ?case by (cases "split_lines xs") auto
qed

lemma split_lines_join:
  "ls \<noteq> [] \<Longrightarrow> split_lines (join [CHR 0x0A] ls) = concat (map split_lines ls)"
proof (induction "[CHR 0x0A]" ls rule: join.induct)
  case 1
  then show ?case by simp
next
  case (2 x)
  show ?case by simp
next
  case (3 x y ys)
  then show ?case by (simp add: split_lines_append)
qed

lemma split_lines_item:
  assumes "item_ok l"
  shows "split_lines l = [l] \<or> (\<exists>p. l = CHR 0x0A # ''Part of speech: '' @ p
           \<and> split_lines l = [[], ''Part of speech: '' @ p])"
proof (cases "CHR 0x0A \<in> set l")
  case False
  then show ?thesis by (simp add: split_lines_plain)
next
  case True
  with assms obtain p where p: "l = CHR 0x0A # ''Part of speech: '' @ p" "CHR 0x0A \<notin> set p"
    by (auto simp: item_ok_def)
  then have "CHR 0x0A \<notin> set (''Part of speech: '' @ p)" by simp
  then have "split_lines (''Part of speech: '' @ p) = [''Part of speech: '' @ p]"
    by (rule split_lines_plain)
  with p show ?thesis by simp
qed

lemma filter_split_lines:
  assumes "\<forall>l\<in>set ls. item_ok l"
    and "\<And>p. \<not> P (CHR 0x0A # ''Part of speech: '' @ p)"
    and "\<And>p. \<not> P (''Part of speech: '' @ p)" and "\<not> P []"
  shows "filter P (concat (map split_lines ls)) = filter P ls"
  using assms(1)
proof (induction ls)
  case Nil
  show ?case by simp
next
  case (Cons l ls)
  then have "item_ok l" by simp
  then have "filter P (split_lines l) = filter P [l]"
    using split_lines_item [of l] assms(2-4) by auto
  with Cons show ?case by simp
qed

lemma sublist_concat_map:
  assumes "sublist xs ys"
  shows "sublist (concat (map f xs)) (concat (map f ys))"
proof -
  from assms obtain ps ss where "ys = ps @ xs @ ss" by (auto simp: sublist_def)
  then show ?thesis by simp
qed

lemma all_less_Suc: "(\<forall>p<Suc n. P p) \<longleftrightarrow> P 0 \<and> (\<forall>q<n. P (Suc q))"
  by (auto simp: less_Suc_eq_0_disj)

lemma follows_nth:
  "follows b ls \<longleftrightarrow>
     (\<forall>p<length ls. is_example_line (ls ! p) \<longrightarrow>
        (if p = 0 then b else is_definition_line (ls ! (p - 1))))"
proof (induction ls arbitrary: b)
  case Nil
  show ?case by simp
next
  case (Cons l ls)
  have "(\<forall>q<length ls. is_example_line (ls ! q) \<longrightarrow>
           (if q = 0 then is_definition_line l else is_definition_line (ls ! (q - 1))))
      \<longleftrightarrow> (\<forall>q<length ls. is_example_line (ls ! q) \<longrightarrow> is_definition_line ((l # ls) ! q))"
    by (simp add: nth_Cons')
  then show ?case
    by (simp add: Cons.IH all_less_Suc)
qed

lemma examples_follow_follows: "examples_follow ls \<longleftrightarrow> follows False ls"
proof -
  have "(if p = 0 then False else Q) \<longleftrightarrow> 0 < p \<and> Q" for p :: nat and Q
    by simp
  then show ?thesis
    by (simp only: follows_nth examples_follow_def)
qed

lemma follows_split_lines:
  "\<forall>l\<in>set ls. item_ok l \<Longrightarrow> follows b ls \<Longrightarrow> follows b (concat (map split_lines ls))"
proof (induction ls arbitrary: b)
  case Nil
  show ?case by simp
next
  case (Cons l ls)
  then have ok: "item_ok l" and rest: "follows (is_definition_line l) (concat (map split_lines ls))"
    by simp_all
  from split_lines_item [OF ok] show ?case
  proof
    assume "split_lines l = [l]"
    with Cons.prems rest show ?thesis by simp
  next
    assume "\<exists>p. l = CHR 0x0A # ''Part of speech: '' @ p
           \<and> split_lines l = [[], ''Part of speech: '' @ p]"
    then obtain p where "l = CHR 0x0A # ''Part of speech: '' @ p"
      "split_lines l = [[], ''Part of speech: '' @ p]" by blast
    with rest show ?thesis
      by (simp add: is_example_line_def is_definition_line_def)
  qed
qed

lemma str_nat_digits: "set (str_nat n) \<subseteq> set ''0123456789''"
proof (induction n rule: str_nat.induct)
  case (1 n)
  show ?case
  proof (cases "n < 10")
    case True
    then show ?thesis using digit_char_digit [of n] by (simp add: str_nat.simps [of n])
  next
    case False
    with 1 have "set (str_nat (n div 10)) \<subseteq> set ''0123456789''" by simp
    moreover have "digit_char (n mod 10) \<in> set ''0123456789''"
      by (rule digit_char_digit) simp
    ultimately show ?thesis using False by (simp add: str_nat.simps [of n])
  qed
qed

lemma str_nat_one_line: "CHR 0x0A \<notin> set (str_nat n)"
proof
  assume "CHR 0x0A \<in> set (str_nat n)"
  with str_nat_digits [of n] have "CHR 0x0A \<in> set ''0123456789''" by (rule subsetD)
  then show False by simp
qed

lemma join_one_line:
  "CHR 0x0A \<notin> set sep \<Longrightarrow> \<forall>x\<in>set xs. CHR 0x0A \<notin> set x \<Longrightarrow> CHR 0x0A \<notin> set (join sep xs)"
  by (induction sep xs rule: join.induct) simp_all

lemma numbered_line_one_line:
  "one_line (defn_definition d) \<Longrightarrow> CHR 0x0A \<notin> set (numbered_line i d)"
  by (simp add: numbered_line_def one_line_def str_nat_one_line)

lemma example_lines_one_line:
  "one_line (defn_example d) \<Longrightarrow> l \<in> set (example_lines d) \<Longrightarrow> CHR 0x0A \<notin> set l"
  by (cases "or_empty (defn_example d) = []") (simp_all add: example_lines_def one_line_def)

lemma defn_lines_one_line:
  assumes "one_line (defn_definition d)" and "one_line (defn_example d)"
    and "l \<in> set (defn_lines i d)"
  shows "CHR 0x0A \<notin> set l"
  using assms numbered_line_one_line example_lines_one_line
  by (auto simp: defn_lines_def)

lemma numbered_lines_one_line:
  "list_all (\<lambda>d. one_line (defn_definition d) \<and> one_line (defn_example d)) ds
   \<Longrightarrow> l \<in> set (numbered_lines i ds) \<Longrightarrow> CHR 0x0A \<notin> set l"
proof (induction ds arbitrary: i)
  case Nil
  then show ?case by simp
next
  case (Cons d ds)
  then show ?case using defn_lines_one_line [of d l i] by auto
qed

lemma part_line_ok: "one_line (meaning_partOfSpeech m) \<Longrightarrow> item_ok (part_line m)"
  unfolding item_ok_def part_line_def one_line_def by blast

lemma one_line_ok: "CHR 0x0A \<notin> set l \<Longrightarrow> item_ok l"
  by (simp add: item_ok_def)

lemma meaning_lines_ok:
  assumes "one_line (meaning_partOfSpeech m)"
    and "list_all (\<lambda>d. one_line (defn_definition d) \<and> one_line (defn_example d)) (definitions_of m)"
    and "l \<in> set (meaning_lines m)"
  shows "item_ok l"
proof -
  from assms(3) have "l = part_line m \<or> l \<in> set (numbered_lines 1 (definitions_of m))"
    by (simp add: meaning_lines_def definitions_of_def)
  then show ?thesis
  proof
    assume "l = part_line m"
    with assms(1) show ?thesis by (simp add: part_line_ok)
  next
    assume "l \<in> set (numbered_lines 1 (definitions_of m))"
    with assms(2) have "CHR 0x0A \<notin> set l" by (rule numbered_lines_one_line)
    then show ?thesis by (rule one_line_ok)
  qed
qed

lemma phonetic_line_one_line:
  assumes "list_all (\<lambda>p. one_line (phonetic_text p)) ps" and "l \<in> set (phonetic_line ps)"
  shows "CHR 0x0A \<notin> set l"
proof -
  define ph where "ph = filter (\<lambda>t. t \<noteq> []) (map (\<lambda>p. or_empty (phonetic_text p)) ps)"
  have "\<forall>x\<in>set ph. CHR 0x0A \<notin> set x"
    using assms(1) by (auto simp: ph_def list_all_iff one_line_def)
  then have "CHR 0x0A \<notin> set (join '', '' ph)"
    by (intro join_one_line) simp_all
  moreover from assms(2) have "l = ''Pronunciation: '' @ join '', '' ph"
    by (cases "ph = []") (simp_all add: phonetic_line_def ph_def)
  ultimately show ?thesis by simp
qed

lemma entry_lines_ok:
  assumes "one_line_entry e" and "l \<in> set (entry_lines e)"
  shows "item_ok l"
proof -
  have "(\<exists>w. entry_word e = Some w \<and> l = ''Word: '' @ w)
      \<or> (\<exists>ps. entry_phonetics e = Some ps \<and> l \<in> set (phonetic_line ps))
      \<or> (\<exists>ms m. entry_meanings e = Some ms \<and> m \<in> set ms \<and> l \<in> set (meaning_lines m))"
    using assms(2)
    by (cases "entry_word e"; cases "entry_phonetics e"; cases "entry_meanings e")
       (auto simp: entry_lines_def)
  then consider
    (word) w where "entry_word e = Some w" "l = ''Word: '' @ w"
    | (phon) ps where "entry_phonetics e = Some ps" "l \<in> set (phonetic_line ps)"
    | (mean) ms m where "entry_meanings e = Some ms" "m \<in> set ms" "l \<in> set (meaning_lines m)"
    by blast
  then show ?thesis
  proof cases
    case word
    with assms(1) have "CHR 0x0A \<notin> set l"
      by (simp add: one_line_entry_def one_line_def)
    then show ?thesis by (rule one_line_ok)
  next
    case phon
    with assms(1) have "list_all (\<lambda>p. one_line (phonetic_text p)) ps"
      by (simp add: one_line_entry_def phonetics_of_def)
    then have "CHR 0x0A \<notin> set l" using phon(2) by (rule phonetic_line_one_line)
    then show ?thesis by (rule one_line_ok)
  next
    case mean
    with assms(1) have "one_line (meaning_partOfSpeech m)
      \<and> list_all (\<lambda>d. one_line (defn_definition d) \<and> one_line (defn_example d)) (definitions_of m)"
      by (simp add: one_line_entry_def meanings_of_def list_all_iff)
    then show ?thesis using mean(3) by (blast intro: meaning_lines_ok)
  qed
qed

lemma report_lines_ok:
  assumes "\<forall>e\<in>set es. one_line_entry e"
  shows "\<forall>l\<in>set (report_lines es). item_ok l"
proof
  fix l assume "l \<in> set (report_lines es)"
  then obtain e where "e \<in> set es" "l \<in> set (entry_lines e)"
    by (auto simp: report_lines_def)
  with assms show "item_ok l" by (blast intro: entry_lines_ok)
qed

lemma split_lines_defn_lines:
  assumes "\<forall>l\<in>set ls. CHR 0x0A \<notin> set l"
  shows "concat (map split_lines ls) = ls"
  using assms by (induction ls) (simp_all add: split_lines_plain)

subsection \<open>The formatted report\<close>

text \<open>
  C2. For an HTTP 200 response whose body is the single entry for "run" (one phonetic text,
  one verb meaning with the definition "move fast" and the example "She ran."), the lookup
  returns exactly six lines joined by newlines: the word, the pronunciation, a blank line,
  the part of speech, the numbered definition and its example.
\<close>

theorem lookup_run_scenario:
  assumes "http_get (DICTIONARY_API @ quote word) = Responded r"
    and "status_code r = 200"
    and "json r = Inr (PyList [run_entry])"
  shows "lookup_word_api rt http_get word =
           Some (join [CHR 0x0A]
             [''Word: run'', ''Pronunciation: /r'' @ [CHR 0xCA, CHR 0x8C] @ ''n/'', [],
              ''Part of speech: verb'', ''  1. move fast'', ''     e.g., She ran.''])"
  using assms
  by (simp add: lookup_word_api_def out_lines_def run_entry_def format_entry_def word_lines_def
      phonetics_lines_def meanings_lines_def format_meaning_def format_defn_def)

theorem lookup_run_scenario_witness:
  "lookup_word_api sample_runtime (answering 200 (Inr (PyList [run_entry]))) ''run'' =
     Some (''Word: run'' @ [CHR 0x0A] @ ''Pronunciation: /r'' @ [CHR 0xCA, CHR 0x8C] @ ''n/''
           @ [CHR 0x0A] @ [CHR 0x0A] @ ''Part of speech: verb'' @ [CHR 0x0A]
           @ ''  1. move fast'' @ [CHR 0x0A] @ ''     e.g., She ran.'')"
  using lookup_run_scenario [where http_get = "answering 200 (Inr (PyList [run_entry]))"
      and word = "''run''" and rt = sample_runtime
      and r = "\<lparr>status_code = 200, json = Inr (PyList [run_entry])\<rparr>"]
  by (simp add: answering_def)

subsection \<open>Statuses other than 200\<close>

text \<open>
  C5. When the provider answers 404, the lookup returns None (the outcome NotFound), and
  handling that result shows one information box that reads: No such word exists: "<the
  selection>"; no result window is created and the registry is unchanged.
\<close>

theorem not_found_notice:
  assumes "http_get (DICTIONARY_API @ quote selection) = Responded r"
    and "status_code r = 404"
  shows "lookup_word_api rt http_get selection = None
       \<and> kind_of (lookup_word_api rt http_get selection) = NotFound
       \<and> handle_lookup_result a selection (lookup_word_api rt http_get selection) =
           a\<lparr>boxes := boxes a @ [MessageBox Information ''Not found''
                 (''No such word exists: '' @ [CHR 0x22] @ selection @ [CHR 0x22])]\<rparr>
       \<and> open_windows (handle_lookup_result a selection (lookup_word_api rt http_get selection))
           = open_windows a"
  using assms by (simp add: lookup_word_api_def kind_of_def handle_lookup_result_def)

theorem not_found_notice_witness:
  "lookup_word_api sample_runtime (answering 404 (Inl (External ''no body''))) ''xyzzyqq'' = None
   \<and> handle_lookup_result init_app ''xyzzyqq''
        (lookup_word_api sample_runtime (answering 404 (Inl (External ''no body''))) ''xyzzyqq'') =
       init_app\<lparr>boxes := [MessageBox Information ''Not found''
         (''No such word exists: '' @ [CHR 0x22] @ ''xyzzyqq'' @ [CHR 0x22])]\<rparr>"
  using not_found_notice [where http_get = "answering 404 (Inl (External ''no body''))"
      and selection = "''xyzzyqq''" and rt = sample_runtime and a = init_app
      and r = "\<lparr>status_code = 404, json = Inl (External ''no body'')\<rparr>"]
  by (auto simp: answering_def init_app_def)

text \<open>
  C7. For a response whose status is neither 200 nor 404 the lookup returns the text
  "Unexpected API response: <status>", the status in decimal. As the specification words
  the message ("Unexpected response: <status>") the claim fails: status 500 is a
  counterexample.
\<close>

theorem unexpected_status_text:
  assumes "http_get (DICTIONARY_API @ quote word) = Responded r"
    and "status_code r \<noteq> 200"
    and "status_code r \<noteq> 404"
  shows "lookup_word_api rt http_get word
           = Some (''Unexpected API response: '' @ str_int (status_code r))
       \<and> kind_of (lookup_word_api rt http_get word) = Error"
  using assms by (simp add: lookup_word_api_def kind_of_def error_text_def)

theorem unexpected_status_text_witness:
  "lookup_word_api sample_runtime (answering 500 (Inl (External ''no body''))) ''run''
     = Some ''Unexpected API response: 500''"
  using unexpected_status_text [where http_get = "answering 500 (Inl (External ''no body''))"
      and word = "''run''" and rt = sample_runtime
      and r = "\<lparr>status_code = 500, json = Inl (External ''no body'')\<rparr>"]
  by (simp add: answering_def str_int_def str_nat.simps digit_char_def)

theorem unexpected_status_counterexample:
  "\<not> (\<forall>rt http_get word r.
        http_get (DICTIONARY_API @ quote word) = Responded r \<longrightarrow>
        status_code r \<noteq> 200 \<longrightarrow> status_code r \<noteq> 404 \<longrightarrow>
        lookup_word_api rt http_get word
          = Some (''Unexpected response: '' @ str_int (status_code r)))"
proof
  assume claim: "\<forall>rt http_get word r.
        http_get (DICTIONARY_API @ quote word) = Responded r \<longrightarrow>
        status_code r \<noteq> 200 \<longrightarrow> status_code r \<noteq> 404 \<longrightarrow>
        lookup_word_api rt http_get word
          = Some (''Unexpected response: '' @ str_int (status_code r))"
  have "lookup_word_api sample_runtime (answering 500 (Inl (External ''no body''))) ''run''
          = Some (''Unexpected response: '' @ str_int 500)"
    using claim [rule_format, where http_get = "answering 500 (Inl (External ''no body''))"
        and word = "''run''" and rt = sample_runtime
        and r = "\<lparr>status_code = 500, json = Inl (External ''no body'')\<rparr>"]
    by (simp add: answering_def)
  then show False
    by (simp add: lookup_word_api_def answering_def)
qed

subsection \<open>Reports of responses of the documented shape\<close>

text \<open>
  The items the formatter appends for a response of N entries, each with a word, M meanings
  and K definitions per meaning, whatever their texts hold.
\<close>

lemma synthetic_report:
  assumes words: "\<forall>e\<in>set es. entry_word e \<noteq> None"
    and meanings: "\<forall>e\<in>set es. length (meanings_of e) = M"
    and definitions: "\<forall>e\<in>set es. \<forall>m\<in>set (meanings_of e). length (definitions_of m) = K"
    and body: "json r = Inr (PyList (map entry_obj es))"
  shows "out_lines rt r = Inr (report_lines es)
       \<and> length (filter is_word_line (report_lines es)) = length es
       \<and> length (filter is_definition_line (report_lines es)) = length es * (M * K)
       \<and> (\<forall>e\<in>set es. \<forall>m\<in>set (meanings_of e). \<forall>j<length (definitions_of m).
            sublist (defn_lines (Suc j) (definitions_of m ! j)) (report_lines es))
       \<and> examples_follow (report_lines es)"
proof (intro conjI)
  show "out_lines rt r = Inr (report_lines es)"
    using body by (rule out_lines_obj)
  show "length (filter is_word_line (report_lines es)) = length es"
    using words by (rule report_lines_words)
  show "length (filter is_definition_line (report_lines es)) = length es * (M * K)"
    using meanings definitions by (rule report_lines_definitions)
  show "\<forall>e\<in>set es. \<forall>m\<in>set (meanings_of e). \<forall>j<length (definitions_of m).
          sublist (defn_lines (Suc j) (definitions_of m ! j)) (report_lines es)"
    by (auto intro: defn_lines_in_report)
  show "examples_follow (report_lines es)"
    by (rule report_lines_follow)
qed

lemma synthetic_report_sample:
  "out_lines sample_runtime \<lparr>status_code = 200, json = Inr (PyList (map entry_obj sample_entries))\<rparr>
     = Inr (report_lines sample_entries)
   \<and> length (filter is_word_line (report_lines sample_entries)) = 2
   \<and> length (filter is_definition_line (report_lines sample_entries)) = 4
   \<and> sublist [''  1. move fast'', ''     e.g., She ran.''] (report_lines sample_entries)
   \<and> examples_follow (report_lines sample_entries)"
proof -
  define m0 where "m0 = Meaning (Some ''verb'')
        (Some [Defn (Some ''move fast'') (Some ''She ran.''), Defn (Some ''flow'') None])"
  define e0 where "e0 = Entry (Some ''run'') None (Some [m0])"
  have shape: "\<forall>e\<in>set sample_entries. entry_word e \<noteq> None"
    "\<forall>e\<in>set sample_entries. length (meanings_of e) = 1"
    "\<forall>e\<in>set sample_entries. \<forall>m\<in>set (meanings_of e). length (definitions_of m) = 2"
    by (simp_all add: sample_entries_def meanings_of_def definitions_of_def)
  have body: "json \<lparr>status_code = 200, json = Inr (PyList (map entry_obj sample_entries))\<rparr>
      = Inr (PyList (map entry_obj sample_entries))"
    by simp
  note r = synthetic_report [OF shape body, of sample_runtime]
  from r have ball: "\<forall>e\<in>set sample_entries. \<forall>m\<in>set (meanings_of e).
      \<forall>j<length (definitions_of m).
        sublist (defn_lines (Suc j) (definitions_of m ! j)) (report_lines sample_entries)"
    by blast
  have "e0 \<in> set sample_entries" "m0 \<in> set (meanings_of e0)" "0 < length (definitions_of m0)"
    by (simp_all add: sample_entries_def e0_def m0_def meanings_of_def definitions_of_def)
  with ball have "sublist (defn_lines (Suc 0) (definitions_of m0 ! 0)) (report_lines sample_entries)"
    by blast
  moreover have "defn_lines (Suc 0) (definitions_of m0 ! 0)
      = [''  1. move fast'', ''     e.g., She ran.'']"
    by (simp add: m0_def definitions_of_def defn_lines_def numbered_line_def example_lines_def)
  ultimately have "sublist [''  1. move fast'', ''     e.g., She ran.''] (report_lines sample_entries)"
    by simp
  moreover have "length sample_entries = 2"
    by (simp add: sample_entries_def)
  ultimately show ?thesis
    using r by simp
qed

text \<open>
  The same counts hold for the report read as text, split at its newlines, when no word,
  phonetic text, part of speech, definition or example holds a newline: a part-of-speech
  item then reads as a blank line and the label line, every other item as one line.
\<close>

lemma report_text_lines:
  assumes words: "\<forall>e\<in>set es. entry_word e \<noteq> None"
    and meanings: "\<forall>e\<in>set es. length (meanings_of e) = M"
    and definitions: "\<forall>e\<in>set es. \<forall>m\<in>set (meanings_of e). length (definitions_of m) = K"
    and plain: "\<forall>e\<in>set es. one_line_entry e"
  shows "length (filter is_word_line (report_text es)) = length es
       \<and> length (filter is_definition_line (report_text es)) = length es * (M * K)
       \<and> (\<forall>e\<in>set es. \<forall>m\<in>set (meanings_of e). \<forall>j<length (definitions_of m).
            sublist (defn_lines (Suc j) (definitions_of m ! j)) (report_text es))
       \<and> examples_follow (report_text es)"
proof (cases "es = []")
  case True
  have "report_text [] = [[]]"
    by (simp add: report_text_def report_lines_def)
  with True show ?thesis
    by (simp add: examples_follow_def is_word_line_def is_definition_line_def is_example_line_def)
next
  case False
  then obtain e where e: "e \<in> set es" by (cases es) auto
  with words obtain w where "entry_word e = Some w" by auto
  then have "entry_lines e \<noteq> []"
    by (simp add: entry_lines_def)
  with e have "report_lines es \<noteq> []" by (auto simp: report_lines_def)
  then have expand: "report_text es = concat (map split_lines (report_lines es))"
    by (simp add: report_text_def split_lines_join)
  have ok: "\<forall>l\<in>set (report_lines es). item_ok l"
    using plain by (rule report_lines_ok)
  have w: "filter is_word_line (report_text es) = filter is_word_line (report_lines es)"
    unfolding expand using ok by (rule filter_split_lines) (simp_all add: is_word_line_def)
  have d: "filter is_definition_line (report_text es)
      = filter is_definition_line (report_lines es)"
    unfolding expand using ok by (rule filter_split_lines) (simp_all add: is_definition_line_def)
  have s: "sublist (defn_lines (Suc j) (definitions_of m ! j)) (report_text es)"
    if "e \<in> set es" "m \<in> set (meanings_of e)" "j < length (definitions_of m)" for e m j
  proof -
    have sub: "sublist (defn_lines (Suc j) (definitions_of m ! j)) (report_lines es)"
      using that by (rule defn_lines_in_report)
    from that plain have "list_all (\<lambda>d. one_line (defn_definition d) \<and> one_line (defn_example d))
        (definitions_of m)"
      by (auto simp: one_line_entry_def list_all_iff)
    with that(3) have "one_line (defn_definition (definitions_of m ! j))"
      "one_line (defn_example (definitions_of m ! j))"
      by (simp_all add: list_all_length)
    then have "\<forall>l\<in>set (defn_lines (Suc j) (definitions_of m ! j)). CHR 0x0A \<notin> set l"
      using defn_lines_one_line [of "definitions_of m ! j" _ "Suc j"] by blast
    then have "concat (map split_lines (defn_lines (Suc j) (definitions_of m ! j)))
        = defn_lines (Suc j) (definitions_of m ! j)"
      by (rule split_lines_defn_lines)
    with sublist_concat_map [OF sub, of split_lines] show ?thesis
      by (simp add: expand)
  qed
  have "follows False (report_lines es)"
    using report_lines_follow [of es] by (simp only: examples_follow_follows)
  with ok have "follows False (concat (map split_lines (report_lines es)))"
    by (rule follows_split_lines)
  then have f: "examples_follow (report_text es)"
    by (simp only: expand examples_follow_follows)
  have counts: "length (filter is_word_line (report_lines es)) = length es"
    "length (filter is_definition_line (report_lines es)) = length es * (M * K)"
    using words meanings definitions
    by (simp_all add: report_lines_words report_lines_definitions)
  from counts w d s f show ?thesis by simp
qed

lemma lookup_report:
  assumes "http_get (DICTIONARY_API @ quote word) = Responded r"
    and "status_code r = 200"
    and "json r = Inr (PyList (map entry_obj es))"
  shows "lookup_word_api rt http_get word
         = (if report_lines es = [] then None else Some (join [CHR 0x0A] (report_lines es)))"
  using assms by (simp add: lookup_word_api_def out_lines_obj)

text \<open>
  C3. For a response of N entries, each with a word, M meanings and K definitions per
  meaning, whose texts hold no newline, the report the lookup returns, split at its
  newlines, has exactly N lines that begin "Word: " and exactly N * M * K numbered
  definition lines; the definition at position j of a meaning (counted from 0) is numbered
  j + 1 and, when its example is not empty, its example line is the very next line; and
  every example line comes right after a numbered definition line. Without the condition on
  newlines the count fails: one entry whose word holds a newline followed by "Word: b"
  gives two such lines.
\<close>

theorem lookup_report_lines:
  assumes get: "http_get (DICTIONARY_API @ quote word) = Responded r"
    and status: "status_code r = 200"
    and body: "json r = Inr (PyList (map entry_obj es))"
    and words: "\<forall>e\<in>set es. entry_word e \<noteq> None"
    and meanings: "\<forall>e\<in>set es. length (meanings_of e) = M"
    and definitions: "\<forall>e\<in>set es. \<forall>m\<in>set (meanings_of e). length (definitions_of m) = K"
    and plain: "\<forall>e\<in>set es. one_line_entry e"
  shows "(es \<noteq> [] \<longrightarrow> lookup_word_api rt http_get word = Some (join [CHR 0x0A] (report_lines es)))
       \<and> length (filter is_word_line (returned_lines (lookup_word_api rt http_get word)))
           = length es
       \<and> length (filter is_definition_line (returned_lines (lookup_word_api rt http_get word)))
           = length es * (M * K)
       \<and> (\<forall>e\<in>set es. \<forall>m\<in>set (meanings_of e). \<forall>j<length (definitions_of m).
            sublist (defn_lines (Suc j) (definitions_of m ! j))
              (returned_lines (lookup_word_api rt http_get word)))
       \<and> examples_follow (returned_lines (lookup_word_api rt http_get word))"
proof (cases "es = []")
  case True
  with get status body have "lookup_word_api rt http_get word = None"
    by (simp add: lookup_report report_lines_def)
  with True show ?thesis
    by (simp add: returned_lines_def examples_follow_def)
next
  case False
  then obtain e where e: "e \<in> set es" by (cases es) auto
  with words obtain w where "entry_word e = Some w" by auto
  then have "entry_lines e \<noteq> []"
    by (simp add: entry_lines_def)
  with e have "report_lines es \<noteq> []" by (auto simp: report_lines_def)
  with get status body
  have res: "lookup_word_api rt http_get word = Some (join [CHR 0x0A] (report_lines es))"
    by (simp add: lookup_report)
  then have "returned_lines (lookup_word_api rt http_get word) = report_text es"
    by (simp add: returned_lines_def report_text_def)
  with res report_text_lines [OF words meanings definitions plain] show ?thesis
    by simp
qed

theorem lookup_report_lines_witness:
  "lookup_word_api sample_runtime (answering 200 (Inr (PyList (map entry_obj sample_entries)))) ''run''
     = Some (join [CHR 0x0A] (report_lines sample_entries))
   \<and> length (filter is_word_line (returned_lines (lookup_word_api sample_runtime
        (answering 200 (Inr (PyList (map entry_obj sample_entries)))) ''run''))) = 2
   \<and> length (filter is_definition_line (returned_lines (lookup_word_api sample_runtime
        (answering 200 (Inr (PyList (map entry_obj sample_entries)))) ''run''))) = 4
   \<and> examples_follow (returned_lines (lookup_word_api sample_runtime
        (answering 200 (Inr (PyList (map entry_obj sample_entries)))) ''run''))"
proof -
  have shape: "\<forall>e\<in>set sample_entries. entry_word e \<noteq> None"
    "\<forall>e\<in>set sample_entries. length (meanings_of e) = 1"
    "\<forall>e\<in>set sample_entries. \<forall>m\<in>set (meanings_of e). length (definitions_of m) = 2"
    "\<forall>e\<in>set sample_entries. one_line_entry e"
    by (simp_all add: sample_entries_def meanings_of_def definitions_of_def one_line_entry_def
        one_line_def phonetics_of_def)
  have get: "answering 200 (Inr (PyList (map entry_obj sample_entries))) (DICTIONARY_API @ quote ''run'')
      = Responded \<lparr>status_code = 200, json = Inr (PyList (map entry_obj sample_entries))\<rparr>"
    by (simp add: answering_def)
  have ne: "sample_entries \<noteq> []" "length sample_entries = 2"
    by (simp_all add: sample_entries_def)
  have "(sample_entries \<noteq> [] \<longrightarrow>
        lookup_word_api sample_runtime
          (answering 200 (Inr (PyList (map entry_obj sample_entries)))) ''run''
        = Some (join [CHR 0x0A] (report_lines sample_entries)))
      \<and> length (filter is_word_line (returned_lines (lookup_word_api sample_runtime
          (answering 200 (Inr (PyList (map entry_obj sample_entries)))) ''run'')))
        = length sample_entries
      \<and> length (filter is_definition_line (returned_lines (lookup_word_api sample_runtime
          (answering 200 (Inr (PyList (map entry_obj sample_entries)))) ''run'')))
        = length sample_entries * (1 * 2)
      \<and> (\<forall>e\<in>set sample_entries. \<forall>m\<in>set (meanings_of e). \<forall>j<length (definitions_of m).
            sublist (defn_lines (Suc j) (definitions_of m ! j))
              (returned_lines (lookup_word_api sample_runtime
                (answering 200 (Inr (PyList (map entry_obj sample_entries)))) ''run'')))
      \<and> examples_follow (returned_lines (lookup_word_api sample_runtime
          (answering 200 (Inr (PyList (map entry_obj sample_entries)))) ''run''))"
    by (rule lookup_report_lines [where
          r = "\<lparr>status_code = 200, json = Inr (PyList (map entry_obj sample_entries))\<rparr>"])
       (simp_all add: get shape)
  with ne show ?thesis
    by auto
qed

theorem lookup_report_lines_counterexample:
  "\<not> (\<forall>rt http_get word r es M K.
        http_get (DICTIONARY_API @ quote word) = Responded r \<longrightarrow>
        status_code r = 200 \<longrightarrow>
        json r = Inr (PyList (map entry_obj es)) \<longrightarrow>
        (\<forall>e\<in>set es. entry_word e \<noteq> None) \<longrightarrow>
        (\<forall>e\<in>set es. length (meanings_of e) = M) \<longrightarrow>
        (\<forall>e\<in>set es. \<forall>m\<in>set (meanings_of e). length (definitions_of m) = K) \<longrightarrow>
        length (filter is_word_line (returned_lines (lookup_word_api rt http_get word)))
          = length es)"
proof
  assume claim: "\<forall>rt http_get word r es M K.
        http_get (DICTIONARY_API @ quote word) = Responded r \<longrightarrow>
        status_code r = 200 \<longrightarrow>
        json r = Inr (PyList (map entry_obj es)) \<longrightarrow>
        (\<forall>e\<in>set es. entry_word e \<noteq> None) \<longrightarrow>
        (\<forall>e\<in>set es. length (meanings_of e) = M) \<longrightarrow>
        (\<forall>e\<in>set es. \<forall>m\<in>set (meanings_of e). length (definitions_of m) = K) \<longrightarrow>
        length (filter is_word_line (returned_lines (lookup_word_api rt http_get word)))
          = length es"
  have get: "answering 200 (Inr (PyList (map entry_obj newline_entries))) (DICTIONARY_API @ quote ''a'')
      = Responded \<lparr>status_code = 200, json = Inr (PyList (map entry_obj newline_entries))\<rparr>"
    by (simp add: answering_def)
  have shape: "\<forall>e\<in>set newline_entries. entry_word e \<noteq> None"
    "\<forall>e\<in>set newline_entries. length (meanings_of e) = 1"
    "\<forall>e\<in>set newline_entries. \<forall>m\<in>set (meanings_of e). length (definitions_of m) = 1"
    by (simp_all add: newline_entries_def meanings_of_def definitions_of_def)
  have "length (filter is_word_line (returned_lines (lookup_word_api sample_runtime
          (answering 200 (Inr (PyList (map entry_obj newline_entries)))) ''a'')))
      = length newline_entries"
  proof -
    from claim have "answering 200 (Inr (PyList (map entry_obj newline_entries)))
          (DICTIONARY_API @ quote ''a'')
          = Responded \<lparr>status_code = 200, json = Inr (PyList (map entry_obj newline_entries))\<rparr> \<longrightarrow>
        status_code \<lparr>status_code = 200, json = Inr (PyList (map entry_obj newline_entries))\<rparr> = 200 \<longrightarrow>
        json \<lparr>status_code = 200, json = Inr (PyList (map entry_obj newline_entries))\<rparr>
          = Inr (PyList (map entry_obj newline_entries)) \<longrightarrow>
        (\<forall>e\<in>set newline_entries. entry_word e \<noteq> None) \<longrightarrow>
        (\<forall>e\<in>set newline_entries. length (meanings_of e) = 1) \<longrightarrow>
        (\<forall>e\<in>set newline_entries. \<forall>m\<in>set (meanings_of e). length (definitions_of m) = 1) \<longrightarrow>
        length (filter is_word_line (returned_lines (lookup_word_api sample_runtime
          (answering 200 (Inr (PyList (map entry_obj newline_entries)))) ''a'')))
          = length newline_entries"
      by blast
    with get shape show ?thesis by simp
  qed
  moreover have "lookup_word_api sample_runtime
          (answering 200 (Inr (PyList (map entry_obj newline_entries)))) ''a''
      = Some (join [CHR 0x0A] (report_lines newline_entries))"
    using lookup_report [where http_get = "answering 200 (Inr (PyList (map entry_obj newline_entries)))"
        and word = "''a''" and es = newline_entries and rt = sample_runtime
        and r = "\<lparr>status_code = 200, json = Inr (PyList (map entry_obj newline_entries))\<rparr>"]
      get
    by (simp add: newline_entries_def report_lines_def entry_lines_def)
  moreover have "report_lines newline_entries
      = [''Word: a'' @ [CHR 0x0A] @ ''Word: b'', CHR 0x0A # ''Part of speech: noun'',
         ''  1. first letter'']"
    by (simp add: newline_entries_def report_lines_def entry_lines_def meaning_lines_def
        part_line_def defn_lines_def numbered_line_def example_lines_def)
  ultimately show False
    by (simp add: returned_lines_def is_word_line_def newline_entries_def)
qed

text \<open>
  C10. On a 200 response of the documented shape, an entry whose meanings hold a meaning
  contributes the line "Part of speech: <label>" after a blank line, with an empty label
  when the meaning has no partOfSpeech and whatever its definitions are; so the lookup
  returns the report (the outcome Success), not None.
\<close>

theorem meaning_gives_success:
  assumes "http_get (DICTIONARY_API @ quote word) = Responded r"
    and "status_code r = 200"
    and "json r = Inr (PyList (map entry_obj es))"
    and "e \<in> set es" and "entry_meanings e = Some ms" and "m \<in> set ms"
  shows "\<exists>ls. out_lines rt r = Inr ls
           \<and> (CHR 0x0A # ''Part of speech: '' @ or_empty (meaning_partOfSpeech m)) \<in> set ls
           \<and> lookup_word_api rt http_get word = Some (join [CHR 0x0A] ls)
           \<and> kind_of (lookup_word_api rt http_get word) = Success"
proof -
  have ls: "out_lines rt r = Inr (report_lines es)"
    using assms(3) by (rule out_lines_obj)
  have mem: "part_line m \<in> set (report_lines es)"
    using assms(4-6) by (rule part_line_in_report)
  then have ne: "report_lines es \<noteq> []" by auto
  have "opens (report_lines es)" using ls by (rule out_lines_opens)
  then have "\<not> error_text (join [CHR 0x0A] (report_lines es))"
    using ne by (rule report_not_error_text)
  with assms(1,2) ls mem ne show ?thesis
    by (simp add: lookup_word_api_def kind_of_def part_line_def)
qed

theorem meaning_gives_success_witness:
  "lookup_word_api sample_runtime (answering 200 (Inr (PyList (map entry_obj bare_entries)))) ''hm''
     = Some (''Word: hm'' @ [CHR 0x0A, CHR 0x0A] @ ''Part of speech: '')
   \<and> kind_of (lookup_word_api sample_runtime
        (answering 200 (Inr (PyList (map entry_obj bare_entries)))) ''hm'') = Success"
proof -
  have "\<exists>ls. out_lines sample_runtime
            \<lparr>status_code = 200, json = Inr (PyList (map entry_obj bare_entries))\<rparr> = Inr ls
         \<and> (CHR 0x0A # ''Part of speech: '' @ or_empty (meaning_partOfSpeech (Meaning None (Some []))))
             \<in> set ls
         \<and> lookup_word_api sample_runtime
             (answering 200 (Inr (PyList (map entry_obj bare_entries)))) ''hm''
             = Some (join [CHR 0x0A] ls)
         \<and> kind_of (lookup_word_api sample_runtime
             (answering 200 (Inr (PyList (map entry_obj bare_entries)))) ''hm'') = Success"
    by (rule meaning_gives_success [where es = bare_entries
          and e = "Entry (Some ''hm'') None (Some [Meaning None (Some [])])"
          and ms = "[Meaning None (Some [])]"])
       (simp_all add: answering_def bare_entries_def)
  then obtain ls where ls: "out_lines sample_runtime
        \<lparr>status_code = 200, json = Inr (PyList (map entry_obj bare_entries))\<rparr> = Inr ls"
    and res: "lookup_word_api sample_runtime
        (answering 200 (Inr (PyList (map entry_obj bare_entries)))) ''hm'' = Some (join [CHR 0x0A] ls)"
    and kind: "kind_of (lookup_word_api sample_runtime
        (answering 200 (Inr (PyList (map entry_obj bare_entries)))) ''hm'') = Success"
    by blast
  have "out_lines sample_runtime
        \<lparr>status_code = 200, json = Inr (PyList (map entry_obj bare_entries))\<rparr>
      = Inr (report_lines bare_entries)"
    by (rule out_lines_obj) simp
  with ls have "ls = [''Word: hm'', CHR 0x0A # ''Part of speech: '']"
    by (simp add: bare_entries_def report_lines_def entry_lines_def meaning_lines_def part_line_def)
  with res kind show ?thesis by simp
qed

lemma format_meaning_part:
  assumes "format_meaning rt (PyDict kvs) = Inr ls"
  shows "(CHR 0x0A # ''Part of speech: ''
           @ py_format rt (case map_of kvs ''partOfSpeech'' of None \<Rightarrow> PyStr [] | Some v \<Rightarrow> v))
         \<in> set ls"
  using assms by (auto simp: format_meaning_def bind_exc_Inr)

lemma format_meanings_member:
  "format_meanings rt ms = Inr ls \<Longrightarrow> m \<in> set ms
   \<Longrightarrow> \<exists>lm. format_meaning rt m = Inr lm \<and> set lm \<subseteq> set ls"
proof (induction ms arbitrary: ls)
  case Nil
  then show ?case by simp
next
  case (Cons a ms)
  then show ?case by (fastforce simp: bind_exc_Inr)
qed

lemma format_entries_member:
  "format_entries rt es = Inr ls \<Longrightarrow> e \<in> set es
   \<Longrightarrow> \<exists>le. format_entry rt e = Inr le \<and> set le \<subseteq> set ls"
proof (induction es arbitrary: ls)
  case Nil
  then show ?case by simp
next
  case (Cons a es)
  then show ?case by (fastforce simp: bind_exc_Inr)
qed

lemma format_entry_meanings:
  assumes "format_entry rt (PyDict kvs) = Inr le" and "map_of kvs ''meanings'' = Some (PyList ms)"
  shows "\<exists>lm. format_meanings rt ms = Inr lm \<and> set lm \<subseteq> set le"
  using assms by (auto simp: format_entry_def meanings_lines_def bind_exc_Inr)

text \<open>
  The same on any decoded body, whatever its shape: when an entry that is an object holds a
  list of meanings and one of them is an object, the lookup never returns None; and if
  nothing raises while the body is formatted, that meaning's line is in the report.
\<close>

lemma meaning_never_not_found:
  assumes get: "http_get (DICTIONARY_API @ quote word) = Responded r"
    and status: "status_code r = 200"
    and body: "json r = Inr (PyList entries)"
    and entry: "PyDict kvs \<in> set entries"
    and meanings: "map_of kvs ''meanings'' = Some (PyList ms)"
    and meaning: "PyDict mkvs \<in> set ms"
  shows "lookup_word_api rt http_get word \<noteq> None"
    and "out_lines rt r = Inr ls \<Longrightarrow>
         (CHR 0x0A # ''Part of speech: ''
            @ py_format rt (case map_of mkvs ''partOfSpeech'' of None \<Rightarrow> PyStr [] | Some v \<Rightarrow> v))
         \<in> set ls
         \<and> lookup_word_api rt http_get word = Some (join [CHR 0x0A] ls)
         \<and> kind_of (lookup_word_api rt http_get word) = Success"
proof -
  have line: "(CHR 0x0A # ''Part of speech: ''
            @ py_format rt (case map_of mkvs ''partOfSpeech'' of None \<Rightarrow> PyStr [] | Some v \<Rightarrow> v))
         \<in> set ls" if "out_lines rt r = Inr ls" for ls
  proof -
    from that body have "format_entries rt entries = Inr ls"
      by (simp add: out_lines_def)
    with entry obtain le where "format_entry rt (PyDict kvs) = Inr le" "set le \<subseteq> set ls"
      using format_entries_member by blast
    moreover from this meanings obtain lm where "format_meanings rt ms = Inr lm" "set lm \<subseteq> set le"
      using format_entry_meanings by blast
    moreover from this meaning obtain l where "format_meaning rt (PyDict mkvs) = Inr l" "set l \<subseteq> set lm"
      using format_meanings_member by blast
    ultimately show ?thesis
      using format_meaning_part by blast
  qed
  show "lookup_word_api rt http_get word \<noteq> None"
    using get status line by (cases "out_lines rt r") (auto simp: lookup_word_api_def)
  show "(CHR 0x0A # ''Part of speech: ''
            @ py_format rt (case map_of mkvs ''partOfSpeech'' of None \<Rightarrow> PyStr [] | Some v \<Rightarrow> v))
         \<in> set ls
         \<and> lookup_word_api rt http_get word = Some (join [CHR 0x0A] ls)
         \<and> kind_of (lookup_word_api rt http_get word) = Success" if ls: "out_lines rt r = Inr ls"
  proof -
    have mem: "(CHR 0x0A # ''Part of speech: ''
            @ py_format rt (case map_of mkvs ''partOfSpeech'' of None \<Rightarrow> PyStr [] | Some v \<Rightarrow> v))
         \<in> set ls" using ls by (rule line)
    then have ne: "ls \<noteq> []" by auto
    have "opens ls" using ls by (rule out_lines_opens)
    then have "\<not> error_text (join [CHR 0x0A] ls)" using ne by (rule report_not_error_text)
    with get status ls mem ne show ?thesis
      by (simp add: lookup_word_api_def kind_of_def)
  qed
qed

subsection \<open>Every request ends in one outcome\<close>

text \<open>
  On a word that encodes: whatever the request does (an exception of the HTTP call, any
  status, a body that does not decode, any exception while the decoded body is formatted),
  the value returned stands for exactly one outcome, and a report is never one of the error
  texts.
\<close>

lemma lookup_outcome:
  "kind_of (lookup_word_api rt http_get t) = spec_outcome rt (http_get (DICTIONARY_API @ quote t))"
proof (cases "http_get (DICTIONARY_API @ quote t)")
  case (Raised e)
  then show ?thesis
    by (simp add: lookup_word_api_def kind_of_def spec_outcome_def error_text_def)
next
  case (Responded r)
  show ?thesis
  proof (cases "status_code r = 200")
    case False
    with Responded show ?thesis
      by (simp add: lookup_word_api_def kind_of_def spec_outcome_def error_text_def)
  next
    case True
    show ?thesis
    proof (cases "out_lines rt r")
      case (Inl e)
      with Responded True show ?thesis
        by (simp add: lookup_word_api_def kind_of_def spec_outcome_def error_text_def)
    next
      case (Inr ls)
      then have "ls \<noteq> [] \<Longrightarrow> \<not> error_text (join [CHR 0x0A] ls)"
        using out_lines_opens report_not_error_text by blast
      with Responded True Inr show ?thesis
        by (auto simp: lookup_word_api_def kind_of_def spec_outcome_def)
    qed
  qed
qed

lemma lookup_outcome_samples:
  "kind_of (lookup_word_api sample_runtime (\<lambda>url. Raised (External ''timed out'')) ''run'') = Error
   \<and> kind_of (lookup_word_api sample_runtime (answering 200 (Inl (External ''not JSON''))) ''run'')
       = Error
   \<and> kind_of (lookup_word_api sample_runtime (answering 200 (Inr (PyInt 7))) ''run'') = Error
   \<and> kind_of (lookup_word_api sample_runtime (answering 200 (Inr (PyList []))) ''run'') = NotFound
   \<and> kind_of (lookup_word_api sample_runtime (answering 200 (Inr (PyList [run_entry]))) ''run'')
       = Success"
  using lookup_outcome [of sample_runtime "\<lambda>url. Raised (External ''timed out'')" "''run''"]
    lookup_outcome [of sample_runtime "answering 200 (Inl (External ''not JSON''))" "''run''"]
    lookup_outcome [of sample_runtime "answering 200 (Inr (PyInt 7))" "''run''"]
    lookup_outcome [of sample_runtime "answering 200 (Inr (PyList []))" "''run''"]
    lookup_outcome [of sample_runtime "answering 200 (Inr (PyList [run_entry]))" "''run''"]
  by (simp add: spec_outcome_def answering_def out_lines_def run_entry_def format_entry_def
      word_lines_def phonetics_lines_def meanings_lines_def format_meaning_def format_defn_def)

lemma encode_point_surrogate: "encode_point 0xD800 = Inl UnicodeEncodeError"
  by (simp add: encode_point_def)

lemma encode_run: "encode_utf8 [0x72, 0x75, 0x6E] = Inr ''run''"
  by code_simp

text \<open>
  C4. For every str that encodes as UTF-8 (one that holds no lone surrogate), whatever the
  request does, the lookup returns a value, and it stands for exactly one of the three
  outcomes. For a str that holds a lone surrogate the claim fails: the word is quoted
  before the first \<open>try\<close>, the \<open>UnicodeEncodeError\<close> leaves \<open>lookup_word_api\<close>, and it is
  \<open>bg_lookup\<close> that turns it into a result marked \<open>__ERROR__:\<close>.
\<close>

theorem lookup_returns_outcome:
  assumes "encode_utf8 t = Inr s"
  shows "\<exists>result. lookup_word_api_str rt http_get t = Inr result
           \<and> kind_of result = spec_outcome rt (http_get (DICTIONARY_API @ quote s))"
  using assms by (simp add: lookup_word_api_str_def lookup_outcome)

theorem lookup_returns_outcome_witness:
  "\<exists>result. lookup_word_api_str sample_runtime (\<lambda>url. Raised (External ''timed out''))
       [0x72, 0x75, 0x6E] = Inr result
     \<and> kind_of result = Error"
  using lookup_returns_outcome [OF encode_run, of sample_runtime
      "\<lambda>url. Raised (External ''timed out'')"]
  by (simp add: spec_outcome_def)

theorem lookup_raises_counterexample:
  "\<not> (\<forall>rt http_get t. trimmed t \<longrightarrow> (\<exists>result. lookup_word_api_str rt http_get t = Inr result))"
proof
  assume claim: "\<forall>rt http_get t. trimmed t \<longrightarrow>
      (\<exists>result. lookup_word_api_str rt http_get t = Inr result)"
  have "trimmed [0xD800]"
    by (simp add: trimmed_def space_points_def)
  with claim have "\<exists>result. lookup_word_api_str sample_runtime
      (answering 404 (Inl (External ''no body''))) [0xD800] = Inr result"
    by blast
  then show False
    by (simp add: lookup_word_api_str_def encode_point_surrogate)
qed

lemma surrogate_critical_box:
  "bg_lookup sample_runtime http_get [0xD800] = Some ''__ERROR__:failed''
   \<and> handle_lookup_result init_app ''?'' (bg_lookup sample_runtime http_get [0xD800])
       = init_app\<lparr>boxes := [MessageBox Critical ''Lookup Error''
          (''Error while looking up '' @ [CHR 0x22] @ ''?'' @ [CHR 0x22] @ '':'' @ [CHR 0x0A]
           @ ''failed'')]\<rparr>"
  by (simp add: bg_lookup_def lookup_word_api_str_def encode_point_surrogate sample_runtime_def
      handle_lookup_result_def init_app_def split_after_colon_def)

subsection \<open>Selection capture\<close>

lemma whitespace_prefix_free:
  "x \<in> set whitespace \<Longrightarrow> y \<in> set whitespace \<Longrightarrow> prefix x y \<Longrightarrow> x = y"
proof -
  have "list_all (\<lambda>x. list_all (\<lambda>y. prefix x y \<longrightarrow> x = y) whitespace) whitespace"
    by code_simp
  then show "x \<in> set whitespace \<Longrightarrow> y \<in> set whitespace \<Longrightarrow> prefix x y \<Longrightarrow> x = y"
    by (simp add: list_all_iff)
qed

lemma find_eq: "w \<in> set ws \<Longrightarrow> find (\<lambda>x. x = w) ws = Some w"
  by (induction ws) auto

lemma find_whitespace:
  assumes "w \<in> set whitespace"
  shows "find (\<lambda>x. prefix x (w @ s)) whitespace = Some w"
proof -
  have "prefix x (w @ s) \<longleftrightarrow> x = w" if "x \<in> set whitespace" for x
  proof
    assume "prefix x (w @ s)"
    moreover have "prefix w (w @ s)" by simp
    ultimately have "prefix x w \<or> prefix w x" by (rule prefix_same_cases)
    with that assms show "x = w" by (auto dest: whitespace_prefix_free)
  qed simp
  then have "find (\<lambda>x. prefix x (w @ s)) whitespace = find (\<lambda>x. x = w) whitespace"
    by (intro find_cong) simp_all
  with assms show ?thesis by (simp add: find_eq)
qed

lemma lstrip_whitespace_only: "whitespace_only s \<Longrightarrow> lstrip s = []"
proof (induction rule: whitespace_only.induct)
  case empty
  show ?case by (simp add: lstrip.simps [of "[]"] whitespace_def)
next
  case (space w s)
  then show ?case
    by (simp add: lstrip.simps [of "w @ s"] find_whitespace)
qed

lemma rstrip_Nil: "rstrip [] = []"
  by (simp add: rstrip.simps [of "[]"] whitespace_def suffix_def)

lemma strip_whitespace_only: "whitespace_only s \<Longrightarrow> strip s = []"
  by (simp add: strip_def lstrip_whitespace_only rstrip_Nil)

text \<open>
  C6. When the clipboard cannot be read, or its text is empty or made of whitespace only,
  the worker shows the "No selection" box and does not emit request_lookup; whenever it
  does emit request_lookup, the text emitted is the clipboard text stripped, and it is not
  empty. None of this depends on how the simulated copy went.
\<close>

theorem capture_selection:
  "on_hotkey_press_worker copy PasteFailed = Notice (MessageBox Information ''No selection''
       ''No text was selected (or nothing copied). Select text and press the hotkey again.'')
   \<and> (whitespace_only s \<longrightarrow> on_hotkey_press_worker copy (Pasted s) =
        Notice (MessageBox Information ''No selection''
          ''No text was selected (or nothing copied). Select text and press the hotkey again.''))
   \<and> (on_hotkey_press_worker copy clip = request_lookup t \<longrightarrow>
        (\<exists>c. clip = Pasted c \<and> t = strip c) \<and> t \<noteq> [])"
  by (cases clip) (auto simp: on_hotkey_press_worker_def strip_whitespace_only split: if_splits)

theorem capture_selection_witness:
  "on_hotkey_press_worker BothFailed (Pasted (''  '' @ [CHR 0x09, CHR 0xC2, CHR 0xA0])) =
     Notice (MessageBox Information ''No selection''
       ''No text was selected (or nothing copied). Select text and press the hotkey again.'')
   \<and> on_hotkey_press_worker HotkeyOk (Pasted ('' run '' @ [CHR 0x0A])) = request_lookup ''run''"
proof -
  have "whitespace_only ([CHR 0x20] @ [CHR 0x20] @ [CHR 0x09] @ [CHR 0xC2, CHR 0xA0] @ [])"
    by (intro whitespace_only.intros) (simp_all add: whitespace_def)
  then have "whitespace_only (''  '' @ [CHR 0x09, CHR 0xC2, CHR 0xA0])" by simp
  with capture_selection [of BothFailed "''  '' @ [CHR 0x09, CHR 0xC2, CHR 0xA0]"]
  have "on_hotkey_press_worker BothFailed (Pasted (''  '' @ [CHR 0x09, CHR 0xC2, CHR 0xA0])) =
     Notice (MessageBox Information ''No selection''
       ''No text was selected (or nothing copied). Select text and press the hotkey again.'')"
    by blast
  moreover have "on_hotkey_press_worker HotkeyOk (Pasted ('' run '' @ [CHR 0x0A]))
      = request_lookup ''run''"
    by code_simp
  ultimately show ?thesis by blast
qed

subsection \<open>The registry of result windows\<close>

lemma remove_window_ref_eq:
  "remove_window_ref a w = a\<lparr>open_windows := remove1 w (open_windows a)\<rparr>"
  by (simp add: remove_window_ref_def list_remove_def remove1_idem)

lemma handle_lookup_result_open:
  "open_windows (handle_lookup_result a selection result) = open_windows a
   \<or> open_windows (handle_lookup_result a selection result)
      = open_windows a @ [\<lparr>window_id = next_id a, window_title = ''Meaning: '' @ selection,
                            window_text = the result\<rparr>]"
  by (auto simp: handle_lookup_result_def Let_def split: option.splits)

lemma registry_ok_init: "registry_ok init_app"
  by (simp add: registry_ok_def init_app_def)

lemma registry_ok_handle:
  assumes "registry_ok a"
  shows "registry_ok (handle_lookup_result a selection result)"
proof -
  have fresh: "\<lparr>window_id = next_id a, window_title = t, window_text = x\<rparr> \<notin> set (open_windows a)"
    for t x
    using assms by (auto simp: registry_ok_def list_all_iff)
  show ?thesis
    using assms fresh
    by (auto simp: handle_lookup_result_def registry_ok_def Let_def list_all_iff
        split: option.splits intro: less_SucI)
qed

lemma registry_ok_continue: "registry_ok a \<Longrightarrow> registry_ok (on_continue a w)"
  by (auto simp: on_continue_def registry_ok_def)

lemma registry_ok_destroyed: "registry_ok a \<Longrightarrow> registry_ok (on_destroyed a w)"
  by (auto simp: on_destroyed_def remove_window_ref_eq registry_ok_def list_all_iff
      dest: notin_set_remove1)

lemma reachable_registry_ok: "reachable a \<Longrightarrow> registry_ok a"
  by (induction rule: reachable.induct)
     (simp_all add: registry_ok_init registry_ok_handle registry_ok_continue registry_ok_destroyed)

text \<open>
  C8. In every state the application reaches, removing a window from the registry twice
  leaves the same state as removing it once: after the first removal the window is not in
  the registry, the registry shrinks by at most one entry, removing a window that is not
  there changes nothing, and the guarded \<open>list.remove\<close> never raises.
\<close>

theorem remove_window_ref_idempotent:
  assumes "reachable a"
  shows "remove_window_ref (remove_window_ref a w) w = remove_window_ref a w
       \<and> w \<notin> set (open_windows (remove_window_ref a w))
       \<and> length (open_windows a) \<le> Suc (length (open_windows (remove_window_ref (remove_window_ref a w) w)))
       \<and> (w \<notin> set (open_windows a) \<longrightarrow> remove_window_ref a w = a)
       \<and> (if w \<in> set (open_windows a) then list_remove w (open_windows a)
           else Inr (open_windows a)) = Inr (open_windows (remove_window_ref a w))"
proof -
  have d: "distinct (open_windows a)"
    using reachable_registry_ok [OF assms] by (simp add: registry_ok_def)
  then have gone: "w \<notin> set (remove1 w (open_windows a))" by simp
  then have twice: "remove1 w (remove1 w (open_windows a)) = remove1 w (open_windows a)"
    by (rule remove1_idem)
  have len: "length (open_windows a) \<le> Suc (length (remove1 w (open_windows a)))"
    by (auto simp: length_remove1 dest: length_pos_if_in_set)
  show ?thesis
    using gone twice len
    by (simp add: remove_window_ref_eq list_remove_def remove1_idem)
qed

theorem remove_window_ref_idempotent_witness:
  "remove_window_ref (remove_window_ref sample_app sample_window) sample_window
     = remove_window_ref sample_app sample_window
   \<and> open_windows sample_app = [sample_window]
   \<and> open_windows (remove_window_ref sample_app sample_window) = []"
proof -
  have "reachable sample_app"
    unfolding sample_app_def by (intro reachable.intros)
  from remove_window_ref_idempotent [OF this, of sample_window]
  have "remove_window_ref (remove_window_ref sample_app sample_window) sample_window
     = remove_window_ref sample_app sample_window"
    by blast
  moreover have "open_windows sample_app = [sample_window]"
    by (simp add: sample_app_def sample_window_def handle_lookup_result_def init_app_def Let_def)
  ultimately show ?thesis
    by (simp add: remove_window_ref_eq)
qed

text \<open>
  C9. In every state the application reaches, every result window that exists, and so
  every window on screen, is in the registry. Handling a result text opens a new window,
  shows it and appends it to the registry; a window in the registry stays there through
  later results and through "Continue reading", and leaves only when it is destroyed.
\<close>

theorem windows_tracked:
  assumes "reachable a"
  shows "set (visible a) \<subseteq> set (open_windows a)
       \<and> set (widgets a) \<subseteq> set (open_windows a)
       \<and> (\<not> prefix ''__ERROR__:'' report \<longrightarrow>
            (\<exists>w. window_text w = report \<and> w \<notin> set (open_windows a)
              \<and> open_windows (handle_lookup_result a selection (Some report)) = open_windows a @ [w]
              \<and> w \<in> set (visible (handle_lookup_result a selection (Some report)))))
       \<and> (\<forall>w\<in>set (open_windows a).
            w \<in> set (open_windows (handle_lookup_result a selection result))
            \<and> w \<in> set (open_windows (on_continue a v))
            \<and> (v \<noteq> w \<longrightarrow> w \<in> set (open_windows (on_destroyed a v))))"
proof -
  have ok: "registry_ok a" using assms by (rule reachable_registry_ok)
  have fresh: "\<lparr>window_id = next_id a, window_title = t, window_text = x\<rparr> \<notin> set (open_windows a)"
    for t x
    using ok by (auto simp: registry_ok_def list_all_iff)
  have "set (visible a) \<subseteq> set (open_windows a)" "set (widgets a) \<subseteq> set (open_windows a)"
    using ok by (auto simp: registry_ok_def)
  moreover have "\<not> prefix ''__ERROR__:'' report \<longrightarrow>
            (\<exists>w. window_text w = report \<and> w \<notin> set (open_windows a)
              \<and> open_windows (handle_lookup_result a selection (Some report)) = open_windows a @ [w]
              \<and> w \<in> set (visible (handle_lookup_result a selection (Some report))))"
    using fresh by (auto simp: handle_lookup_result_def Let_def)
  moreover have "\<forall>w\<in>set (open_windows a).
            w \<in> set (open_windows (handle_lookup_result a selection result))
            \<and> w \<in> set (open_windows (on_continue a v))
            \<and> (v \<noteq> w \<longrightarrow> w \<in> set (open_windows (on_destroyed a v)))"
    using handle_lookup_result_open [of a selection result]
    by (auto simp: on_continue_def on_destroyed_def remove_window_ref_eq)
  ultimately show ?thesis by blast
qed

theorem windows_tracked_witness:
  "visible sample_app = [sample_window] \<and> open_windows sample_app = [sample_window]
   \<and> set (visible sample_app) \<subseteq> set (open_windows sample_app)
   \<and> open_windows (on_continue sample_app sample_window) = [sample_window]
   \<and> open_windows (on_destroyed sample_app sample_window) = []"
proof -
  have "reachable sample_app"
    unfolding sample_app_def by (intro reachable.intros)
  from windows_tracked [OF this]
  have "set (visible sample_app) \<subseteq> set (open_windows sample_app)"
    by blast
  moreover have "open_windows sample_app = [sample_window]" "visible sample_app = [sample_window]"
    by (simp_all add: sample_app_def sample_window_def handle_lookup_result_def init_app_def Let_def)
  ultimately show ?thesis
    by (simp add: on_continue_def on_destroyed_def remove_window_ref_eq)
qed

subsection \<open>Errors of a lookup\<close>

text \<open>
  C1. An error of the lookup should end in a critical notice and no result window. It does
  not: the three error texts come back from the lookup as ordinary results, so for a status
  500, for an exception of the HTTP call and for a body that does not decode the handler
  opens a result window "Meaning: run" that shows the error text, registers it, and shows
  no message box. Only a result marked \<open>__ERROR__:\<close> reaches the critical box.
\<close>

theorem error_text_in_result_window:
  "handle_lookup_result init_app ''run''
      (lookup_word_api sample_runtime (answering 500 (Inl (External ''no body''))) ''run'')
    = init_app\<lparr>
        widgets := [\<lparr>window_id = 0, window_title = ''Meaning: run'',
                     window_text = ''Unexpected API response: 500''\<rparr>],
        visible := [\<lparr>window_id = 0, window_title = ''Meaning: run'',
                     window_text = ''Unexpected API response: 500''\<rparr>],
        open_windows := [\<lparr>window_id = 0, window_title = ''Meaning: run'',
                          window_text = ''Unexpected API response: 500''\<rparr>],
        next_id := 1\<rparr>
   \<and> boxes (handle_lookup_result init_app ''run''
        (lookup_word_api sample_runtime (\<lambda>url. Raised (External ''timed out'')) ''run'')) = []
   \<and> map window_text (open_windows (handle_lookup_result init_app ''run''
        (lookup_word_api sample_runtime (\<lambda>url. Raised (External ''timed out'')) ''run'')))
      = [''Error contacting dictionary API: failed'']
   \<and> boxes (handle_lookup_result init_app ''run''
        (lookup_word_api sample_runtime (answering 200 (Inl (External ''not JSON''))) ''run'')) = []
   \<and> map window_text (open_windows (handle_lookup_result init_app ''run''
        (lookup_word_api sample_runtime (answering 200 (Inl (External ''not JSON''))) ''run'')))
      = [''Error parsing API response: failed'']
   \<and> handle_lookup_result init_app ''run'' (Some ''__ERROR__:timed out'')
      = init_app\<lparr>boxes := [MessageBox Critical ''Lookup Error''
          (''Error while looking up '' @ [CHR 0x22] @ ''run'' @ [CHR 0x22] @ '':'' @ [CHR 0x0A]
           @ ''timed out'')]\<rparr>"
  by (simp add: handle_lookup_result_def lookup_word_api_def answering_def init_app_def
      sample_runtime_def out_lines_def str_int_def str_nat.simps digit_char_def
      split_after_colon_def Let_def)

end
